theory Spec2Isabelle
  imports Main "HOL-Library.Word"
begin

section \<open>Strings and bytes\<close>

text \<open>
  JavaScript strings are modelled as \<^typ>\<open>string\<close>: lists of 8-bit characters, a
  character outside ASCII being the bytes of its UTF-8 encoding. Buffers are lists of
  bytes.
\<close>

type_synonym byte = "8 word"

text \<open>\<open>s.split(sep)\<close> for a one-character separator: never the empty array.\<close>

fun split :: "char \<Rightarrow> string \<Rightarrow> string list" where
  "split sep [] = [[]]"
| "split sep (c # cs) =
     (if c = sep then [] # split sep cs
      else (case split sep cs of [] \<Rightarrow> [[c]] | x # xs \<Rightarrow> (c # x) # xs))"

text \<open>\<open>xs[i]\<close>: \<open>undefined\<close> out of range.\<close>

fun index :: "'a list \<Rightarrow> nat \<Rightarrow> 'a option" where
  "index [] i = None"
| "index (x # xs) 0 = Some x"
| "index (x # xs) (Suc i) = index xs i"

text \<open>
  The white space and line terminators that \<open>trim\<close> strips. In ASCII: tab, line feed,
  vertical tab, form feed, carriage return and space. Outside ASCII: U+00A0, in two
  bytes, and U+1680, U+2000 to U+200A, U+2028, U+2029, U+202F, U+205F, U+3000 and U+FEFF,
  in three bytes each.
\<close>

definition isWhiteSpace :: "char \<Rightarrow> bool" where
  "isWhiteSpace c = (c \<in> set [CHR 0x09, CHR 0x0A, CHR 0x0B, CHR 0x0C, CHR 0x0D, CHR '' ''])"

definition isWhiteSpace2 :: "char \<Rightarrow> char \<Rightarrow> bool" where
  "isWhiteSpace2 a b = (a = CHR 0xC2 \<and> b = CHR 0xA0)"

definition whiteSpace3 :: "string list" where
  "whiteSpace3 =
     [[CHR 0xE1, CHR 0x9A, CHR 0x80],
      [CHR 0xE2, CHR 0x80, CHR 0x80], [CHR 0xE2, CHR 0x80, CHR 0x81],
      [CHR 0xE2, CHR 0x80, CHR 0x82], [CHR 0xE2, CHR 0x80, CHR 0x83],
      [CHR 0xE2, CHR 0x80, CHR 0x84], [CHR 0xE2, CHR 0x80, CHR 0x85],
      [CHR 0xE2, CHR 0x80, CHR 0x86], [CHR 0xE2, CHR 0x80, CHR 0x87],
      [CHR 0xE2, CHR 0x80, CHR 0x88], [CHR 0xE2, CHR 0x80, CHR 0x89],
      [CHR 0xE2, CHR 0x80, CHR 0x8A],
      [CHR 0xE2, CHR 0x80, CHR 0xA8], [CHR 0xE2, CHR 0x80, CHR 0xA9],
      [CHR 0xE2, CHR 0x80, CHR 0xAF],
      [CHR 0xE2, CHR 0x81, CHR 0x9F],
      [CHR 0xE3, CHR 0x80, CHR 0x80],
      [CHR 0xEF, CHR 0xBB, CHR 0xBF]]"

definition isWhiteSpace3 :: "char \<Rightarrow> char \<Rightarrow> char \<Rightarrow> bool" where
  "isWhiteSpace3 a b c = ([a, b, c] \<in> set whiteSpace3)"

text \<open>
  The string without the white space it starts with. Read backwards (on the reversed
  string, for the white space a string ends with), the bytes of a character come in
  reverse order.
\<close>

fun strip :: "bool \<Rightarrow> string \<Rightarrow> string" where
  "strip backwards [] = []"
| "strip backwards (c # cs) =
     (if isWhiteSpace c then strip backwards cs
      else
        (case cs of
           [] \<Rightarrow> c # cs
         | c2 # cs2 \<Rightarrow>
             if (if backwards then isWhiteSpace2 c2 c else isWhiteSpace2 c c2)
             then strip backwards cs2
             else
               (case cs2 of
                  [] \<Rightarrow> c # cs
                | c3 # cs3 \<Rightarrow>
                    if (if backwards then isWhiteSpace3 c3 c2 c else isWhiteSpace3 c c2 c3)
                    then strip backwards cs3
                    else c # cs)))"

definition trim :: "string \<Rightarrow> string" where
  "trim s = rev (strip True (rev (strip False s)))"

definition toLowerCase_char :: "char \<Rightarrow> char" where
  "toLowerCase_char c =
     (let n = (of_char c :: nat)
      in if 65 \<le> n \<and> n \<le> 90 then char_of (n + 32) else c)"

definition isASCII :: "string \<Rightarrow> bool" where
  "isASCII s = list_all (\<lambda>c. (of_char c :: nat) < 128) s"

text \<open>
  \<open>s.toLowerCase()\<close>: on ASCII text, the letters A to Z become a to z. On any other
  text it is the lower-casing of Unicode, which is a parameter: what the platform gives
  for the string.
\<close>

type_synonym unicode_lower = "string \<Rightarrow> string"

definition toLowerCase :: "unicode_lower \<Rightarrow> string \<Rightarrow> string" where
  "toLowerCase lower s = (if isASCII s then map toLowerCase_char s else lower s)"

definition hexDigit :: "nat \<Rightarrow> char" where
  "hexDigit n = ''0123456789abcdef'' ! (n mod 16)"

definition hexByte :: "byte \<Rightarrow> string" where
  "hexByte b = [hexDigit (unat b div 16), hexDigit (unat b mod 16)]"

text \<open>\<open>buf.toString("hex")\<close>\<close>

definition toString_hex :: "byte list \<Rightarrow> string" where
  "toString_hex bs = concat (map hexByte bs)"

text \<open>
  \<open>crypto.randomBytes(n)\<close>: the first \<open>n\<close> bytes of the entropy source the call
  draws from (a parameter of every operation that uses randomness).
\<close>

type_synonym entropy = "nat \<Rightarrow> byte"

definition randomBytes :: "entropy \<Rightarrow> nat \<Rightarrow> byte list" where
  "randomBytes ent n = map ent [0..<n]"

text \<open>
  What the password functions, \<open>authorize\<close>, the \<open>jwt\<close> callback and the store
  operations throw or reject with: an \<open>Error\<close> with its message, the error of the scrypt
  callback, and the errors of the store by their codes.
\<close>

datatype fault =
    Error string
  | ScryptError
  | PrismaValidationError
  | P2002
  | P2003
  | P2025

section \<open>lib/auth/utils\<close>

text \<open>
  \<open>ALLOWED_DOMAINS\<close>, from the environment variable of that name (\<open>None\<close> when it is
  not set): split on commas, each entry trimmed, empty entries dropped.
\<close>

definition ALLOWED_DOMAINS :: "string option \<Rightarrow> string list" where
  "ALLOWED_DOMAINS env =
     filter (\<lambda>d. d \<noteq> [])
       (map trim (split CHR '','' (case env of None \<Rightarrow> [] | Some s \<Rightarrow> s)))"

text \<open>
  \<open>crypto.scrypt(password, salt, keylen, callback)\<close> is a parameter: \<open>None\<close> when the
  callback receives an error.
\<close>

type_synonym scrypt = "string \<Rightarrow> string \<Rightarrow> nat \<Rightarrow> byte list option"

definition hashPassword :: "scrypt \<Rightarrow> entropy \<Rightarrow> string \<Rightarrow> fault + string" where
  "hashPassword sc ent password =
     (let salt = toString_hex (randomBytes ent 16)
      in case sc password salt 64 of
           None \<Rightarrow> Inl ScryptError
         | Some derivedKey \<Rightarrow> Inr (salt @ '':'' @ toString_hex derivedKey))"

definition verifyPassword :: "scrypt \<Rightarrow> string \<Rightarrow> string \<Rightarrow> fault + bool" where
  "verifyPassword sc password hash =
     (let parts = split CHR '':'' hash;
          salt = (case parts of [] \<Rightarrow> [] | s # _ \<Rightarrow> s);
          key = index parts 1
      in case sc password salt 64 of
           None \<Rightarrow> Inl ScryptError
         | Some derivedKey \<Rightarrow> Inr (key = Some (toString_hex derivedKey)))"

text \<open>
  \<open>isEmailAllowed\<close> and \<open>extractDomain\<close>; the first argument is the lower-casing of
  Unicode, the second of \<open>isEmailAllowed\<close> is \<open>ALLOWED_DOMAINS\<close>.
\<close>

definition isEmailAllowed :: "unicode_lower \<Rightarrow> string list \<Rightarrow> string \<Rightarrow> bool" where
  "isEmailAllowed lower allowed email =
     (if length allowed = 0 then True
      else (case map_option (toLowerCase lower) (index (split CHR ''@'' email) 1) of
              None \<Rightarrow> False
            | Some domain \<Rightarrow> domain \<in> set allowed))"

definition extractDomain :: "unicode_lower \<Rightarrow> string \<Rightarrow> string option" where
  "extractDomain lower email =
     (case map_option (toLowerCase lower) (index (split CHR ''@'' email) 1) of
        None \<Rightarrow> None
      | Some d \<Rightarrow> if d = [] then None else Some d)"

subsection \<open>Cookies\<close>

definition hexval :: "char \<Rightarrow> nat option" where
  "hexval c =
     (let n = (of_char c :: nat)
      in if 48 \<le> n \<and> n \<le> 57 then Some (n - 48)
         else if 97 \<le> n \<and> n \<le> 102 then Some (n - 87)
         else if 65 \<le> n \<and> n \<le> 70 then Some (n - 55)
         else None)"

text \<open>
  \<open>decodeURIComponent\<close>: \<open>None\<close> is the URIError it throws. An escape is \<open>%\<close> and
  two hex digits; escaped bytes from 0x80 on must spell one well-formed UTF-8 sequence.
  The first argument is what the scanner expects next: how many continuation bytes are
  still due and the range the next one must lie in.
\<close>

fun decode :: "nat \<times> nat \<times> nat \<Rightarrow> string \<Rightarrow> string option" where
  "decode (k, lo, hi) [] = (if k = 0 then Some [] else None)"
| "decode (k, lo, hi) (c # cs) =
     (if c = CHR ''%'' then
        (case cs of
           h1 # h2 # rest \<Rightarrow>
             (case (hexval h1, hexval h2) of
                (Some a, Some b) \<Rightarrow>
                  (let B = 16 * a + b
                   in if k = 0 then
                        (if B < 0x80 then map_option ((#) (char_of B)) (decode (0, 0, 0) rest)
                         else if 0xC2 \<le> B \<and> B \<le> 0xDF
                           then map_option ((#) (char_of B)) (decode (1, 0x80, 0xBF) rest)
                         else if B = 0xE0
                           then map_option ((#) (char_of B)) (decode (2, 0xA0, 0xBF) rest)
                         else if B = 0xED
                           then map_option ((#) (char_of B)) (decode (2, 0x80, 0x9F) rest)
                         else if 0xE1 \<le> B \<and> B \<le> 0xEF
                           then map_option ((#) (char_of B)) (decode (2, 0x80, 0xBF) rest)
                         else if B = 0xF0
                           then map_option ((#) (char_of B)) (decode (3, 0x90, 0xBF) rest)
                         else if B = 0xF4
                           then map_option ((#) (char_of B)) (decode (3, 0x80, 0x8F) rest)
                         else if 0xF1 \<le> B \<and> B \<le> 0xF3
                           then map_option ((#) (char_of B)) (decode (3, 0x80, 0xBF) rest)
                         else None)
                      else if lo \<le> B \<and> B \<le> hi
                        then map_option ((#) (char_of B)) (decode (k - 1, 0x80, 0xBF) rest)
                      else None)
              | _ \<Rightarrow> None)
         | _ \<Rightarrow> None)
      else if k = 0 then map_option ((#) c) (decode (0, 0, 0) cs)
      else None)"

definition decodeURIComponent :: "string \<Rightarrow> string option" where
  "decodeURIComponent s = decode (0, 0, 0) s"

definition uriUnreserved :: "char \<Rightarrow> bool" where
  "uriUnreserved c =
     (let n = (of_char c :: nat)
      in (48 \<le> n \<and> n \<le> 57) \<or> (65 \<le> n \<and> n \<le> 90) \<or> (97 \<le> n \<and> n \<le> 122)
         \<or> c \<in> set ''-_.!~*'()'')"

definition encodeURIComponent :: "string \<Rightarrow> string" where
  "encodeURIComponent s =
     concat (map (\<lambda>c. if uriUnreserved c then [c]
                       else [CHR ''%'', ''0123456789ABCDEF'' ! ((of_char c :: nat) div 16),
                             ''0123456789ABCDEF'' ! ((of_char c :: nat) mod 16)]) s)"

text \<open>
  \<open>parseCookies\<close>: the object built by the \<open>reduce\<close>, as a map from names to values;
  \<open>None\<close> when \<open>decodeURIComponent\<close> throws. A later cookie of the same name wins.
\<close>

definition parseCookies_step :: "string \<Rightarrow> (string \<rightharpoonup> string) option \<Rightarrow> (string \<rightharpoonup> string) option" where
  "parseCookies_step cookie acc =
     (case acc of
        None \<Rightarrow> None
      | Some cookies \<Rightarrow>
          (let parts = split CHR ''='' (trim cookie)
           in case (index parts 0, index parts 1) of
                (Some name, Some val) \<Rightarrow>
                  if name \<noteq> [] \<and> val \<noteq> [] then
                    (case decodeURIComponent val of
                       None \<Rightarrow> None
                     | Some v \<Rightarrow> Some (cookies(name \<mapsto> v)))
                  else Some cookies
              | _ \<Rightarrow> Some cookies))"

definition parseCookies :: "string option \<Rightarrow> (string \<rightharpoonup> string) option" where
  "parseCookies cookieHeader =
     (case cookieHeader of
        None \<Rightarrow> Some Map.empty
      | Some h \<Rightarrow> if h = [] then Some Map.empty
                  else fold parseCookies_step (split CHR '';'' h) (Some Map.empty))"

fun digits :: "nat \<Rightarrow> string" where
  "digits n = (if n < 10 then [''0123456789'' ! n]
               else digits (n div 10) @ [''0123456789'' ! (n mod 10)])"

text \<open>
  A number as a template literal prints it. For a safe integer (up to \<open>2^53 - 1\<close> in
  size) that is its decimal text; beyond, a number is rounded and, from \<open>10^21\<close>, printed
  with an exponent: there the text is a parameter, what the platform prints.
\<close>

type_synonym number_text = "int \<Rightarrow> string"

definition decimal :: "number_text \<Rightarrow> int \<Rightarrow> string" where
  "decimal beyond i =
     (if - 9007199254740991 \<le> i \<and> i \<le> 9007199254740991
      then (if i < 0 then CHR ''-'' # digits (nat (- i)) else digits (nat i))
      else beyond i)"

record cookie_options =
  httpOnly :: "bool option"
  secure :: "bool option"
  sameSite :: "string option"

definition no_options :: cookie_options where
  "no_options = \<lparr>httpOnly = None, secure = None, sameSite = None\<rparr>"

definition flag :: "string \<Rightarrow> bool \<Rightarrow> string" where
  "flag key v = (if v then key else [])"

text \<open>
  \<open>setAuthCookie\<close>; \<open>production\<close> is \<open>process.env.NODE_ENV === "production"\<close>,
  \<open>beyond\<close> the text of numbers that are not safe integers. The attributes come in the
  order of \<open>defaultOptions\<close>, an attribute that is \<open>false\<close> is dropped.
\<close>

definition setAuthCookie :: "number_text \<Rightarrow> bool \<Rightarrow> string \<Rightarrow> string \<Rightarrow> int \<Rightarrow> cookie_options \<Rightarrow> string" where
  "setAuthCookie beyond production name val maxAgeSeconds options =
     name @ ''='' @ encodeURIComponent val @ ''; '' @
     foldr (\<lambda>a b. if b = [] then a else a @ ''; '' @ b)
       (filter (\<lambda>a. a \<noteq> [])
          [flag ''httpOnly'' (case httpOnly options of None \<Rightarrow> True | Some v \<Rightarrow> v),
           flag ''secure'' (case secure options of None \<Rightarrow> production | Some v \<Rightarrow> v),
           ''SameSite='' @ (case sameSite options of None \<Rightarrow> ''lax'' | Some v \<Rightarrow> v),
           ''Max-Age='' @ decimal beyond maxAgeSeconds,
           ''Path=/'']) []"

definition clearAuthCookie :: "string \<Rightarrow> string" where
  "clearAuthCookie name = name @ ''=; HttpOnly; Secure; SameSite=lax; Max-Age=0; Path=/''"

section \<open>The store\<close>

text \<open>
  Modelled from the spec: the Prisma schema is not under src/. A refresh token has a
  unique token value, an owning user id, an absolute expiry and a nullable revocation
  time; the table is a map keyed by the token value, which is what
  \<open>findUnique({where: {token}})\<close> needs. Every refresh token refers to a user
  (\<open>include: {user: true}\<close>). Times are milliseconds since the epoch.
\<close>

record RefreshToken =
  rt_userId :: string
  rt_expiresAt :: int
  rt_revokedAt :: "int option"

record User =
  u_id :: string
  u_email :: string
  u_name :: "string option"
  u_givenName :: "string option"
  u_familyName :: "string option"
  u_image :: "string option"
  u_preferences :: "string option"
  u_passwordHash :: "string option"

record db =
  refreshTokens :: "string \<rightharpoonup> RefreshToken"
  users :: "User list"

definition prisma_user_findUnique_id :: "db \<Rightarrow> string \<Rightarrow> User option" where
  "prisma_user_findUnique_id d i = find (\<lambda>u. u_id u = i) (users d)"

definition prisma_user_findUnique_email :: "db \<Rightarrow> string \<Rightarrow> User option" where
  "prisma_user_findUnique_email d e = find (\<lambda>u. u_email u = e) (users d)"

definition prisma_refreshToken_findUnique :: "db \<Rightarrow> string \<Rightarrow> RefreshToken option" where
  "prisma_refreshToken_findUnique d t = refreshTokens d t"

text \<open>\<open>findUnique\<close> with \<open>include: {user: true}\<close>: the row and its user.\<close>

definition prisma_refreshToken_findUnique_include_user :: "db \<Rightarrow> string \<Rightarrow> (RefreshToken \<times> User option) option" where
  "prisma_refreshToken_findUnique_include_user d t =
     (case refreshTokens d t of
        None \<Rightarrow> None
      | Some r \<Rightarrow> Some (r, prisma_user_findUnique_id d (rt_userId r)))"

text \<open>
  \<open>update({where: {token}, data: {revokedAt}})\<close>: rejects with P2025 when no row has
  the token; the write does not look at the row's present \<open>revokedAt\<close>.
\<close>

definition prisma_refreshToken_update :: "string \<Rightarrow> int \<Rightarrow> db \<Rightarrow> fault + db" where
  "prisma_refreshToken_update t revokedAt d =
     (case refreshTokens d t of
        None \<Rightarrow> Inl P2025
      | Some r \<Rightarrow> Inr (d\<lparr>refreshTokens := (refreshTokens d)(t \<mapsto> r\<lparr>rt_revokedAt := Some revokedAt\<rparr>)\<rparr>))"

text \<open>\<open>updateMany\<close> with the same arguments: no row is no error.\<close>

definition prisma_refreshToken_updateMany :: "string \<Rightarrow> int \<Rightarrow> db \<Rightarrow> db" where
  "prisma_refreshToken_updateMany t revokedAt d =
     (case refreshTokens d t of
        None \<Rightarrow> d
      | Some r \<Rightarrow> d\<lparr>refreshTokens := (refreshTokens d)(t \<mapsto> r\<lparr>rt_revokedAt := Some revokedAt\<rparr>)\<rparr>)"

text \<open>
  \<open>create({data: {userId, token, expiresAt}})\<close>: rejects with P2002 when the token value
  is taken and with P2003 when there is no such user; \<open>revokedAt\<close> starts as null.
\<close>

definition prisma_refreshToken_create :: "string \<Rightarrow> string \<Rightarrow> int \<Rightarrow> db \<Rightarrow> fault + db" where
  "prisma_refreshToken_create userId t expiresAt d =
     (if refreshTokens d t \<noteq> None then Inl P2002
      else if prisma_user_findUnique_id d userId = None then Inl P2003
      else Inr (d\<lparr>refreshTokens := (refreshTokens d)
                  (t \<mapsto> \<lparr>rt_userId = userId, rt_expiresAt = expiresAt, rt_revokedAt = None\<rparr>)\<rparr>))"

text \<open>A nullable column read as a condition: true when it holds a value.\<close>

definition nonNull :: "'a option \<Rightarrow> bool" where
  "nonNull v = (case v of None \<Rightarrow> False | Some _ \<Rightarrow> True)"

section \<open>The token endpoint: POST and DELETE\<close>

record claims =
  c_userId :: string
  c_email :: "string option"
  c_type :: string

text \<open>
  \<open>new SignJWT(claims) ... .setExpirationTime(ttl + "s").sign(secret)\<close> is a parameter,
  given the claims and the lifetime in seconds: \<open>None\<close> when it throws.
\<close>

type_synonym signJWT = "claims \<Rightarrow> int \<Rightarrow> string option"

record user_json =
  j_id :: string
  j_email :: string
  j_name :: "string option"
  j_image :: "string option"
  j_preferences :: "string option"

datatype body =
    ErrorJson string
  | TokenJson string user_json
  | SuccessJson

record response =
  status :: nat
  body :: body
  set_cookie :: "string option"

text \<open>
  What one call of POST reads from outside the request: the configuration, the text of
  numbers that are not safe integers, the random source, the signer, and the clock at
  the three places that read it (the validity check, the revocation, the new expiry).
\<close>

record post_env =
  REFRESH_TOKEN_TTL :: int
  ACCESS_TOKEN_TTL :: int
  production :: bool
  number_text :: number_text
  random :: entropy
  sign :: signJWT
  now_check :: int
  now_revoke :: int
  now_create :: int

definition no_token_response :: response where
  "no_token_response =
     \<lparr>status = 401, body = ErrorJson ''No refresh token provided'', set_cookie = None\<rparr>"

definition invalid_token_response :: response where
  "invalid_token_response =
     \<lparr>status = 401, body = ErrorJson ''Invalid refresh token'',
      set_cookie = Some (clearAuthCookie ''refresh-token'')\<rparr>"

definition refresh_failed_response :: response where
  "refresh_failed_response =
     \<lparr>status = 500, body = ErrorJson ''Token refresh failed'',
      set_cookie = Some (clearAuthCookie ''refresh-token'')\<rparr>"

definition token_response :: "post_env \<Rightarrow> string \<Rightarrow> User \<Rightarrow> string \<Rightarrow> response" where
  "token_response e accessToken u newRefreshToken =
     \<lparr>status = 200,
      body = TokenJson accessToken
               \<lparr>j_id = u_id u, j_email = u_email u, j_name = u_name u,
                j_image = u_image u, j_preferences = u_preferences u\<rparr>,
      set_cookie = Some (setAuthCookie (number_text e) (production e) ''refresh-token''
                           newRefreshToken
                           (REFRESH_TOKEN_TTL e) no_options)\<rparr>"

text \<open>
  POST: the response and the store it leaves. Every fault inside the \<open>try\<close> ends in the
  \<open>catch\<close>, with the store as it was when the fault came.
\<close>

definition POST :: "post_env \<Rightarrow> string option \<Rightarrow> db \<Rightarrow> response \<times> db" where
  "POST e cookieHeader d =
     (case parseCookies cookieHeader of
        None \<Rightarrow> (refresh_failed_response, d)
      | Some cookies \<Rightarrow>
          (case cookies ''refresh-token'' of
             None \<Rightarrow> (no_token_response, d)
           | Some refreshToken \<Rightarrow>
               if refreshToken = [] then (no_token_response, d)
               else
                 (case prisma_refreshToken_findUnique_include_user d refreshToken of
                    None \<Rightarrow> (invalid_token_response, d)
                  | Some (refreshTokenRecord, u) \<Rightarrow>
                      if nonNull (rt_revokedAt refreshTokenRecord)
                         \<or> rt_expiresAt refreshTokenRecord < now_check e
                      then (invalid_token_response, d)
                      else
                        (case prisma_refreshToken_update refreshToken (now_revoke e) d of
                           Inl _ \<Rightarrow> (refresh_failed_response, d)
                         | Inr d1 \<Rightarrow>
                             (let newRefreshToken = toString_hex (randomBytes (random e) 64);
                                  expiresAt = now_create e + REFRESH_TOKEN_TTL e * 1000
                              in case prisma_refreshToken_create (rt_userId refreshTokenRecord)
                                        newRefreshToken expiresAt d1 of
                                   Inl _ \<Rightarrow> (refresh_failed_response, d1)
                                 | Inr d2 \<Rightarrow>
                                     (case u of
                                        None \<Rightarrow> (refresh_failed_response, d2)
                                      | Some usr \<Rightarrow>
                                          (case sign e
                                                  \<lparr>c_userId = rt_userId refreshTokenRecord,
                                                   c_email = Some (u_email usr),
                                                   c_type = ''access''\<rparr>
                                                  (ACCESS_TOKEN_TTL e) of
                                             None \<Rightarrow> (refresh_failed_response, d2)
                                           | Some accessToken \<Rightarrow>
                                               (token_response e accessToken usr newRefreshToken,
                                                d2))))))))"

definition revocation_failed_response :: response where
  "revocation_failed_response =
     \<lparr>status = 500, body = ErrorJson ''Token revocation failed'', set_cookie = None\<rparr>"

definition success_response :: response where
  "success_response =
     \<lparr>status = 200, body = SuccessJson, set_cookie = Some (clearAuthCookie ''refresh-token'')\<rparr>"

text \<open>DELETE, with the clock reading of the revocation.\<close>

definition DELETE :: "int \<Rightarrow> string option \<Rightarrow> db \<Rightarrow> response \<times> db" where
  "DELETE now cookieHeader d =
     (case parseCookies cookieHeader of
        None \<Rightarrow> (revocation_failed_response, d)
      | Some cookies \<Rightarrow>
          (case cookies ''refresh-token'' of
             None \<Rightarrow> (success_response, d)
           | Some refreshToken \<Rightarrow>
               if refreshToken = [] then (success_response, d)
               else (success_response, prisma_refreshToken_updateMany refreshToken now d)))"

subsection \<open>Requests in flight\<close>

text \<open>
  POST gives up control at each \<open>await\<close>; between two of them another request can reach
  the store. A request in flight is where it stands, with the local variables it holds:
  before \<open>findUnique\<close> (with the Cookie header), after a passed validity check and
  before \<open>update\<close>, after \<open>update\<close> and before \<open>create\<close>, or done with its response.
\<close>

datatype post_pc =
    Start "string option"
  | Checked string RefreshToken "User option"
  | Revoked string RefreshToken "User option"
  | Done response

fun post_step :: "post_env \<Rightarrow> post_pc \<Rightarrow> db \<Rightarrow> post_pc \<times> db" where
  "post_step e (Start cookieHeader) d =
     (case parseCookies cookieHeader of
        None \<Rightarrow> (Done refresh_failed_response, d)
      | Some cookies \<Rightarrow>
          (case cookies ''refresh-token'' of
             None \<Rightarrow> (Done no_token_response, d)
           | Some refreshToken \<Rightarrow>
               if refreshToken = [] then (Done no_token_response, d)
               else
                 (case prisma_refreshToken_findUnique_include_user d refreshToken of
                    None \<Rightarrow> (Done invalid_token_response, d)
                  | Some (refreshTokenRecord, u) \<Rightarrow>
                      if nonNull (rt_revokedAt refreshTokenRecord)
                         \<or> rt_expiresAt refreshTokenRecord < now_check e
                      then (Done invalid_token_response, d)
                      else (Checked refreshToken refreshTokenRecord u, d))))"
| "post_step e (Checked refreshToken refreshTokenRecord u) d =
     (case prisma_refreshToken_update refreshToken (now_revoke e) d of
        Inl _ \<Rightarrow> (Done refresh_failed_response, d)
      | Inr d1 \<Rightarrow> (Revoked refreshToken refreshTokenRecord u, d1))"
| "post_step e (Revoked refreshToken refreshTokenRecord u) d1 =
     (let newRefreshToken = toString_hex (randomBytes (random e) 64);
          expiresAt = now_create e + REFRESH_TOKEN_TTL e * 1000
      in case prisma_refreshToken_create (rt_userId refreshTokenRecord) newRefreshToken expiresAt d1 of
           Inl _ \<Rightarrow> (Done refresh_failed_response, d1)
         | Inr d2 \<Rightarrow>
             (case u of
                None \<Rightarrow> (Done refresh_failed_response, d2)
              | Some usr \<Rightarrow>
                  (case sign e \<lparr>c_userId = rt_userId refreshTokenRecord,
                                c_email = Some (u_email usr), c_type = ''access''\<rparr>
                          (ACCESS_TOKEN_TTL e) of
                     None \<Rightarrow> (Done refresh_failed_response, d2)
                   | Some accessToken \<Rightarrow>
                       (Done (token_response e accessToken usr newRefreshToken), d2))))"
| "post_step e (Done r) d = (Done r, d)"

text \<open>
  Requests sharing the store, run under a schedule: the list of the requests that take
  the next step, in order.
\<close>

fun run :: "nat list \<Rightarrow> (post_env \<times> post_pc) list \<Rightarrow> db \<Rightarrow> (post_env \<times> post_pc) list \<times> db" where
  "run [] ts d = (ts, d)"
| "run (i # sched) ts d =
     (if i < length ts then
        (case post_step (fst (ts ! i)) (snd (ts ! i)) d of
           (pc, d') \<Rightarrow> run sched (ts[i := (fst (ts ! i), pc)]) d')
      else run sched ts d)"



section \<open>auth/config\<close>

record credentials =
  cr_email :: "string option"
  cr_password :: "string option"

record auth_user =
  a_id :: string
  a_email :: string
  a_name :: "string option"
  a_givenName :: "string option"
  a_familyName :: "string option"
  a_image :: "string option"
  a_preferences :: "string option"

text \<open>
  \<open>authorize\<close>: \<open>Inr None\<close> is the returned \<open>null\<close>, \<open>Inl\<close> what it throws or rejects
  with. The first arguments are the lower-casing of Unicode and \<open>ALLOWED_DOMAINS\<close>.
\<close>

definition authorize :: "unicode_lower \<Rightarrow> string list \<Rightarrow> scrypt \<Rightarrow> db \<Rightarrow> credentials option \<Rightarrow> fault + auth_user option" where
  "authorize lower allowed sc d creds =
     (case creds of
        None \<Rightarrow> Inr None
      | Some c \<Rightarrow>
          (case (cr_email c, cr_password c) of
             (Some email, Some password) \<Rightarrow>
               if email = [] \<or> password = [] then Inr None
               else if \<not> isEmailAllowed lower allowed email then Inl (Error ''Email domain not allowed'')
               else
                 (case prisma_user_findUnique_email d email of
                    None \<Rightarrow> Inr None
                  | Some u \<Rightarrow>
                      (case u_passwordHash u of
                         None \<Rightarrow> Inr None
                       | Some passwordHash \<Rightarrow>
                           if passwordHash = [] then Inr None
                           else
                             (case verifyPassword sc password passwordHash of
                                Inl f \<Rightarrow> Inl f
                              | Inr isValid \<Rightarrow>
                                  if \<not> isValid then Inr None
                                  else Inr (Some \<lparr>a_id = u_id u, a_email = u_email u,
                                                  a_name = u_name u,
                                                  a_givenName = u_givenName u,
                                                  a_familyName = u_familyName u,
                                                  a_image = u_image u,
                                                  a_preferences = u_preferences u\<rparr>))))
           | _ \<Rightarrow> Inr None))"

text \<open>The token of the \<open>jwt\<close> callback; an absent (or null) property is \<open>None\<close>.\<close>

record JWT =
  userId :: "string option"
  email :: "string option"
  name :: "string option"
  givenName :: "string option"
  familyName :: "string option"
  image :: "string option"
  preferences :: "string option"
  accessToken :: "string option"
  refreshToken :: "string option"
  refreshTokenExpires :: "int option"
  error :: "string option"

text \<open>
  The \<open>session\<close> argument of an update: for each property of the token, \<open>None\<close> when the
  object has no such key and \<open>Some v\<close> when it has, with value \<open>v\<close>.
\<close>

record session_update =
  s_userId :: "string option option"
  s_email :: "string option option"
  s_name :: "string option option"
  s_givenName :: "string option option"
  s_familyName :: "string option option"
  s_image :: "string option option"
  s_preferences :: "string option option"
  s_accessToken :: "string option option"
  s_refreshToken :: "string option option"
  s_refreshTokenExpires :: "int option option"
  s_error :: "string option option"

definition assign :: "'a \<Rightarrow> 'a option \<Rightarrow> 'a" where
  "assign old new = (case new of None \<Rightarrow> old | Some v \<Rightarrow> v)"

text \<open>\<open>Object.assign(token, session)\<close>\<close>

definition Object_assign :: "JWT \<Rightarrow> session_update \<Rightarrow> JWT" where
  "Object_assign token s =
     \<lparr>userId = assign (userId token) (s_userId s),
      email = assign (email token) (s_email s),
      name = assign (name token) (s_name s),
      givenName = assign (givenName token) (s_givenName s),
      familyName = assign (familyName token) (s_familyName s),
      image = assign (image token) (s_image s),
      preferences = assign (preferences token) (s_preferences s),
      accessToken = assign (accessToken token) (s_accessToken s),
      refreshToken = assign (refreshToken token) (s_refreshToken s),
      refreshTokenExpires = assign (refreshTokenExpires token) (s_refreshTokenExpires s),
      error = assign (error token) (s_error s)\<rparr>"

text \<open>A string that is not \<open>undefined\<close>, \<open>null\<close> or empty.\<close>

definition truthy :: "string option \<Rightarrow> bool" where
  "truthy s = (case s of None \<Rightarrow> False | Some v \<Rightarrow> v \<noteq> [])"

text \<open>
  \<open>createRefreshToken\<close>, with the clock reading of its expiry. The user id is
  \<open>token.userId as string\<close> at one of the two calls: with \<open>undefined\<close> the store
  rejects the data.
\<close>

definition createRefreshToken :: "int \<Rightarrow> entropy \<Rightarrow> int \<Rightarrow> string option \<Rightarrow> db \<Rightarrow> (fault + string) \<times> db" where
  "createRefreshToken ttl ent now uid d =
     (let tokenValue = toString_hex (randomBytes ent 64);
          expiresAt = now + ttl * 1000
      in case uid of
           None \<Rightarrow> (Inl PrismaValidationError, d)
         | Some i \<Rightarrow>
             (case prisma_refreshToken_create i tokenValue expiresAt d of
                Inl f \<Rightarrow> (Inl f, d)
              | Inr d' \<Rightarrow> (Inr tokenValue, d')))"

text \<open>
  What one call of the \<open>jwt\<close> callback reads from outside its arguments. Two refresh
  tokens can be created in one call (at sign-in and at rotation), each from its own
  random bytes and clock reading.
\<close>

record jwt_env =
  J_REFRESH_TOKEN_TTL :: int
  J_ACCESS_TOKEN_TTL :: int
  j_sign :: signJWT
  random_signin :: entropy
  now_signin_create :: int
  now_signin_expires :: int
  now_due :: int
  now_rotate_check :: int
  now_rotate_revoke :: int
  random_rotate :: entropy
  now_rotate_create :: int
  now_rotate_expires :: int

definition refreshAccessToken :: "jwt_env \<Rightarrow> JWT \<Rightarrow> db \<Rightarrow> (fault + JWT) \<times> db" where
  "refreshAccessToken e token d =
     (case refreshToken token of
        None \<Rightarrow> (Inl (Error ''No refresh token''), d)
      | Some tokenValue \<Rightarrow>
          if tokenValue = [] then (Inl (Error ''No refresh token''), d)
          else
            (case prisma_refreshToken_findUnique d tokenValue of
               None \<Rightarrow> (Inl (Error ''Invalid refresh token''), d)
             | Some refreshTokenRecord \<Rightarrow>
                 if nonNull (rt_revokedAt refreshTokenRecord)
                    \<or> rt_expiresAt refreshTokenRecord < now_rotate_check e
                 then (Inl (Error ''Invalid refresh token''), d)
                 else
                   (case prisma_refreshToken_update tokenValue (now_rotate_revoke e) d of
                      Inl f \<Rightarrow> (Inl f, d)
                    | Inr d1 \<Rightarrow>
                        (case createRefreshToken (J_REFRESH_TOKEN_TTL e) (random_rotate e)
                                (now_rotate_create e) (userId token) d1 of
                           (Inl f, d2) \<Rightarrow> (Inl f, d2)
                         | (Inr newRefreshToken, d2) \<Rightarrow>
                             (Inr (token\<lparr>refreshToken := Some newRefreshToken,
                                         refreshTokenExpires :=
                                           Some (now_rotate_expires e
                                                 + J_REFRESH_TOKEN_TTL e * 1000)\<rparr>),
                              d2)))))"

text \<open>\<open>revokeRefreshToken\<close>, with the clock reading of the revocation.\<close>

definition revokeRefreshToken :: "int \<Rightarrow> string \<Rightarrow> db \<Rightarrow> db" where
  "revokeRefreshToken now tokenValue d = prisma_refreshToken_updateMany tokenValue now d"

text \<open>
  The \<open>jwt\<close> callback, block by block. \<open>account\<close> is whether the callback was given
  an account. Only the first block can throw out of the callback.
\<close>

definition jwt_signin :: "jwt_env \<Rightarrow> JWT \<Rightarrow> auth_user option \<Rightarrow> bool \<Rightarrow> db \<Rightarrow> (fault + JWT) \<times> db" where
  "jwt_signin e token usr account d =
     (case usr of
        None \<Rightarrow> (Inr token, d)
      | Some u \<Rightarrow>
          if \<not> account then (Inr token, d)
          else
            (let token1 = token\<lparr>userId := Some (a_id u), email := Some (a_email u),
                                name := a_name u, givenName := a_givenName u,
                                familyName := a_familyName u, image := a_image u,
                                preferences := a_preferences u\<rparr>
             in case createRefreshToken (J_REFRESH_TOKEN_TTL e) (random_signin e)
                       (now_signin_create e) (userId token1) d of
                  (Inl f, d1) \<Rightarrow> (Inl f, d1)
                | (Inr refreshTokenValue, d1) \<Rightarrow>
                    (Inr (token1\<lparr>refreshToken := Some refreshTokenValue,
                                 refreshTokenExpires :=
                                   Some (now_signin_expires e + J_REFRESH_TOKEN_TTL e * 1000)\<rparr>),
                     d1)))"

definition jwt_update :: "JWT \<Rightarrow> string option \<Rightarrow> session_update option \<Rightarrow> JWT" where
  "jwt_update token trigger session =
     (case session of
        None \<Rightarrow> token
      | Some s \<Rightarrow> if trigger = Some ''update'' then Object_assign token s else token)"

definition jwt_sign :: "jwt_env \<Rightarrow> JWT \<Rightarrow> JWT" where
  "jwt_sign e token =
     (case userId token of
        None \<Rightarrow> token
      | Some uid \<Rightarrow>
          if uid = [] then token
          else
            (case j_sign e \<lparr>c_userId = uid, c_email = email token, c_type = ''access''\<rparr>
                    (J_ACCESS_TOKEN_TTL e) of
               None \<Rightarrow> token
             | Some signedToken \<Rightarrow> token\<lparr>accessToken := Some signedToken\<rparr>))"

definition refresh_due :: "jwt_env \<Rightarrow> JWT \<Rightarrow> bool" where
  "refresh_due e token =
     (truthy (refreshToken token)
      \<and> (case refreshTokenExpires token of
            None \<Rightarrow> False
          | Some expires \<Rightarrow> expires \<noteq> 0 \<and> now_due e > expires))"

definition jwt_refresh :: "jwt_env \<Rightarrow> JWT \<Rightarrow> db \<Rightarrow> JWT \<times> db" where
  "jwt_refresh e token d =
     (if refresh_due e token then
        (case refreshAccessToken e token d of
           (Inr newToken, d1) \<Rightarrow> (newToken, d1)
         | (Inl f, d1) \<Rightarrow> (token\<lparr>error := Some ''RefreshAccessTokenError''\<rparr>, d1))
      else (token, d))"

definition jwt :: "jwt_env \<Rightarrow> JWT \<Rightarrow> auth_user option \<Rightarrow> bool \<Rightarrow> string option \<Rightarrow> session_update option \<Rightarrow> db \<Rightarrow> (fault + JWT) \<times> db" where
  "jwt e token usr account trigger session d =
     (case jwt_signin e token usr account d of
        (Inl f, d1) \<Rightarrow> (Inl f, d1)
      | (Inr token1, d1) \<Rightarrow>
          (case jwt_refresh e (jwt_sign e (jwt_update token1 trigger session)) d1 of
             (token2, d2) \<Rightarrow> (Inr token2, d2)))"

text \<open>The \<open>session\<close> callback: the user, the two tokens and the error of the token.\<close>

record Session =
  se_id :: "string option"
  se_email :: "string option"
  se_name :: "string option"
  se_givenName :: "string option"
  se_familyName :: "string option"
  se_image :: "string option"
  se_preferences :: "string option"
  se_accessToken :: "string option"
  se_refreshToken :: "string option"
  se_error :: "string option"

definition session_callback :: "JWT \<Rightarrow> Session" where
  "session_callback token =
     \<lparr>se_id = userId token, se_email = email token, se_name = name token,
      se_givenName = givenName token, se_familyName = familyName token,
      se_image = image token, se_preferences = preferences token,
      se_accessToken = accessToken token, se_refreshToken = refreshToken token,
      se_error = error token\<rparr>"

section \<open>A stand-in for scrypt\<close>

text \<open>
  To run the password functions on concrete input: the bytes of the password, cut to the
  key length. It never fails.
\<close>

definition toy_scrypt :: scrypt where
  "toy_scrypt password salt keylen = Some (map (\<lambda>c. of_nat (of_char c)) (take keylen password))"

section \<open>Notions used in the statements\<close>

text \<open>
  The token value a request presents: the \<open>refresh-token\<close> cookie of its Cookie header,
  when the header parses and the cookie is there and not empty (what POST and DELETE
  test before they go to the store).
\<close>

definition presented :: "string option \<Rightarrow> string option" where
  "presented cookieHeader =
     (case parseCookies cookieHeader of
        None \<Rightarrow> None
      | Some cookies \<Rightarrow>
          (case cookies ''refresh-token'' of
             None \<Rightarrow> None
           | Some t \<Rightarrow> if t = [] then None else Some t))"

text \<open>
  The rows that the validity check of POST and of \<open>refreshAccessToken\<close> lets through at
  a clock reading: found, not revoked, and not expired before that reading (the check
  rejects when \<open>expiresAt < now\<close>).
\<close>

definition usable :: "int \<Rightarrow> RefreshToken option \<Rightarrow> bool" where
  "usable now row =
     (case row of None \<Rightarrow> False | Some r \<Rightarrow> rt_revokedAt r = None \<and> now \<le> rt_expiresAt r)"

text \<open>The store after the \<open>update\<close> of a rotation, and the token value and row it creates.\<close>

definition revoked_at :: "int \<Rightarrow> string \<Rightarrow> RefreshToken \<Rightarrow> db \<Rightarrow> db" where
  "revoked_at now t r d =
     d\<lparr>refreshTokens := (refreshTokens d)(t \<mapsto> r\<lparr>rt_revokedAt := Some now\<rparr>)\<rparr>"

definition new_token :: "post_env \<Rightarrow> string" where
  "new_token e = toString_hex (randomBytes (random e) 64)"

definition successor :: "post_env \<Rightarrow> RefreshToken \<Rightarrow> RefreshToken" where
  "successor e r =
     \<lparr>rt_userId = rt_userId r, rt_expiresAt = now_create e + REFRESH_TOKEN_TTL e * 1000,
      rt_revokedAt = None\<rparr>"

definition j_new_token :: "jwt_env \<Rightarrow> string" where
  "j_new_token j = toString_hex (randomBytes (random_rotate j) 64)"

section \<open>A concrete store and concrete calls\<close>

text \<open>
  Two users; one refresh token \<open>tok\<close> of the first, expiring at time 1000; calls whose
  clock reads 1000, with a signer that succeeds. The lifetimes are safe integers and the
  emails ASCII, so that the text of other numbers and the lower-casing of other strings
  are never asked for: they are the empty string and the string itself here.
\<close>

definition no_number_text :: number_text where
  "no_number_text i = []"

definition no_unicode_lower :: unicode_lower where
  "no_unicode_lower s = s"

definition alice :: User where
  "alice = \<lparr>u_id = ''u1'', u_email = ''alice@example.com'', u_name = Some ''Alice'',
            u_givenName = None, u_familyName = None, u_image = None, u_preferences = None,
            u_passwordHash = None\<rparr>"

definition mallory :: User where
  "mallory = \<lparr>u_id = ''u2'', u_email = ''mallory@example.com'', u_name = Some ''Mallory'',
              u_givenName = None, u_familyName = None, u_image = None, u_preferences = None,
              u_passwordHash = None\<rparr>"

definition tok_row :: RefreshToken where
  "tok_row = \<lparr>rt_userId = ''u1'', rt_expiresAt = 1000, rt_revokedAt = None\<rparr>"

definition store0 :: db where
  "store0 = \<lparr>refreshTokens = [''tok'' \<mapsto> tok_row], users = [alice, mallory]\<rparr>"

definition env0 :: post_env where
  "env0 = \<lparr>REFRESH_TOKEN_TTL = 2592000, ACCESS_TOKEN_TTL = 900, production = False,
           number_text = no_number_text, random = (\<lambda>i. 0), sign = (\<lambda>c ttl. Some ''signed''),
           now_check = 1000, now_revoke = 1000, now_create = 1000\<rparr>"

definition jenv0 :: jwt_env where
  "jenv0 = \<lparr>J_REFRESH_TOKEN_TTL = 2592000, J_ACCESS_TOKEN_TTL = 900,
            j_sign = (\<lambda>c ttl. Some ''signed''),
            random_signin = (\<lambda>i. 2), now_signin_create = 1000, now_signin_expires = 1000,
            now_due = 1000, now_rotate_check = 1000, now_rotate_revoke = 1000,
            random_rotate = (\<lambda>i. 1), now_rotate_create = 1000, now_rotate_expires = 1000\<rparr>"

definition jwt0 :: JWT where
  "jwt0 = \<lparr>userId = Some ''u1'', email = Some ''alice@example.com'', name = Some ''Alice'',
           givenName = None, familyName = None, image = None, preferences = None,
           accessToken = None, refreshToken = Some ''tok'', refreshTokenExpires = Some 1000,
           error = None\<rparr>"

text \<open>
  The same store with \<open>tok\<close> revoked at time 500; a store of users for signing in, one
  with a password hash (of the password \<open>pw\<close>), one without; the credentials object.
\<close>

definition store_revoked :: db where
  "store_revoked =
     \<lparr>refreshTokens = [''tok'' \<mapsto> tok_row\<lparr>rt_revokedAt := Some 500\<rparr>], users = [alice, mallory]\<rparr>"

definition carol :: User where
  "carol = \<lparr>u_id = ''u3'', u_email = ''carol@company.com'', u_name = Some ''Carol'',
            u_givenName = None, u_familyName = None, u_image = None, u_preferences = None,
            u_passwordHash =
              Some (toString_hex (randomBytes (\<lambda>i. 7) 16) @ '':'' @ toString_hex [0x70, 0x77])\<rparr>"

definition dave :: User where
  "dave = \<lparr>u_id = ''u4'', u_email = ''dave@company.com'', u_name = Some ''Dave'',
            u_givenName = None, u_familyName = None, u_image = None, u_preferences = None,
            u_passwordHash = None\<rparr>"

definition store_auth :: db where
  "store_auth = \<lparr>refreshTokens = Map.empty, users = [alice, carol, dave]\<rparr>"

definition login :: "string \<Rightarrow> string \<Rightarrow> credentials option" where
  "login e p = Some \<lparr>cr_email = Some e, cr_password = Some p\<rparr>"



text \<open>
  For the \<open>jwt\<close> callback: a call whose clock reads the same time at every place; a
  session update that sets \<open>userId\<close> and \<open>refreshTokenExpires\<close> and nothing else; a
  signer that throws; and a token whose refresh token is not yet due.
\<close>

definition jenv_at :: "int \<Rightarrow> jwt_env" where
  "jenv_at now =
     jenv0\<lparr>now_signin_create := now, now_signin_expires := now, now_due := now,
           now_rotate_check := now, now_rotate_revoke := now, now_rotate_create := now,
           now_rotate_expires := now\<rparr>"

definition claim_userId :: "string \<Rightarrow> int \<Rightarrow> session_update" where
  "claim_userId uid expires =
     \<lparr>s_userId = Some (Some uid), s_email = None, s_name = None, s_givenName = None,
      s_familyName = None, s_image = None, s_preferences = None, s_accessToken = None,
      s_refreshToken = None, s_refreshTokenExpires = Some (Some expires), s_error = None\<rparr>"

definition jenv_unsigned :: jwt_env where
  "jenv_unsigned = jenv0\<lparr>j_sign := (\<lambda>c ttl. None)\<rparr>"

definition jwt_fresh :: JWT where
  "jwt_fresh = jwt0\<lparr>refreshTokenExpires := Some 5000\<rparr>"

section \<open>Facts about strings\<close>

lemma split_no_sep: "sep \<notin> set s \<Longrightarrow> split sep s = [s]"
  by (induction s) auto

lemma split_append_sep: "sep \<notin> set a \<Longrightarrow> split sep (a @ sep # b) = a # split sep b"
  by (induction a) (auto split: list.splits)

lemma hexDigit_in: "hexDigit n \<in> set ''0123456789abcdef''"
  unfolding hexDigit_def by (rule nth_mem) simp

lemma set_toString_hex: "set (toString_hex bs) \<subseteq> set ''0123456789abcdef''"
  using hexDigit_in by (auto simp: toString_hex_def hexByte_def)

lemma colon_notin_hex: "CHR '':'' \<notin> set (toString_hex bs)"
  using set_toString_hex [of bs] by auto

lemma length_toString_hex: "length (toString_hex bs) = 2 * length bs"
  by (induction bs) (auto simp: toString_hex_def hexByte_def)

lemma length_randomBytes: "length (randomBytes ent n) = n"
  by (simp add: randomBytes_def)

lemma length_new_token: "length (toString_hex (randomBytes ent 64)) = 128"
  by (simp add: length_toString_hex length_randomBytes)

lemma hexDigit_inj: "i < 16 \<Longrightarrow> j < 16 \<Longrightarrow> hexDigit i = hexDigit j \<Longrightarrow> i = j"
proof -
  assume a: "i < 16" "j < 16" "hexDigit i = hexDigit j"
  have d: "distinct ''0123456789abcdef''" by simp
  have l: "length ''0123456789abcdef'' = 16" by simp
  from a have "''0123456789abcdef'' ! i = ''0123456789abcdef'' ! j"
    by (simp add: hexDigit_def)
  with d show "i = j"
    using a(1,2) l nth_eq_iff_index_eq [OF d, of i j] by simp
qed

lemma hexByte_inj: "hexByte b = hexByte b' \<Longrightarrow> b = b'"
proof -
  assume "hexByte b = hexByte b'"
  then have "hexDigit (unat b div 16) = hexDigit (unat b' div 16)"
    "hexDigit (unat b mod 16) = hexDigit (unat b' mod 16)"
    by (simp_all add: hexByte_def)
  moreover have "unat b div 16 < 16" "unat b' div 16 < 16"
    using unsigned_less [of b, where 'a = nat] unsigned_less [of b', where 'a = nat] by simp_all
  ultimately have "unat b div 16 = unat b' div 16" "unat b mod 16 = unat b' mod 16"
    using hexDigit_inj by simp_all
  then have "unat b = unat b'"
    by (metis div_mult_mod_eq)
  then show "b = b'" by (simp add: word_unat_eq_iff)
qed

lemma toString_hex_inj: "toString_hex bs = toString_hex bs' \<Longrightarrow> bs = bs'"
proof (induction bs arbitrary: bs')
  case Nil
  then show ?case by (cases bs') (simp_all add: toString_hex_def hexByte_def)
next
  case (Cons b bs)
  then show ?case
  proof (cases bs')
    case Nil
    with Cons.prems show ?thesis by (simp add: toString_hex_def hexByte_def)
  next
    case (Cons b' bs'')
    with Cons.prems have "hexByte b @ toString_hex bs = hexByte b' @ toString_hex bs''"
      by (simp add: toString_hex_def)
    moreover have "length (hexByte b) = length (hexByte b')"
      by (simp add: hexByte_def)
    ultimately have "hexByte b = hexByte b'" "toString_hex bs = toString_hex bs''"
      by simp_all
    with Cons.IH Cons show ?thesis
      using hexByte_inj by blast
  qed
qed

section \<open>Password hashing\<close>

lemma verifyPassword_salted:
  "verifyPassword sc p (toString_hex bs @ CHR '':'' # toString_hex k) =
     (case sc p (toString_hex bs) 64 of
        None \<Rightarrow> Inl ScryptError
      | Some k' \<Rightarrow> Inr (toString_hex k = toString_hex k'))"
  by (auto simp: verifyPassword_def split_append_sep split_no_sep colon_notin_hex
           split: option.splits)

text \<open>
  \<open>verifyPassword\<close> reads the first two segments of the hash, between colons, and
  nothing after them.
\<close>

lemma split_not_Nil: "split sep s \<noteq> []"
  by (induction s) (auto split: list.splits)

lemma hd_split: "hd (split sep s) = takeWhile (\<lambda>c. c \<noteq> sep) s"
  by (induction s) (auto simp: split_not_Nil split: list.splits)

lemma index_1: "index (a # xs) 1 = (case xs of [] \<Rightarrow> None | x # _ \<Rightarrow> Some x)"
  by (cases xs) simp_all

lemma verifyPassword_no_colon:
  assumes "CHR '':'' \<notin> set x"
  shows "verifyPassword sc p x =
     (case sc p x 64 of None \<Rightarrow> Inl ScryptError | Some k \<Rightarrow> Inr False)"
  using assms by (simp add: verifyPassword_def split_no_sep split: option.splits)

lemma verifyPassword_colon:
  assumes "CHR '':'' \<notin> set a"
  shows "verifyPassword sc p (a @ CHR '':'' # b) =
     (case sc p a 64 of
        None \<Rightarrow> Inl ScryptError
      | Some k \<Rightarrow> Inr (takeWhile (\<lambda>c. c \<noteq> CHR '':'') b = toString_hex k))"
proof -
  obtain y ys where s: "split CHR '':'' b = y # ys"
    using split_not_Nil [of "CHR '':''" b] by (cases "split CHR '':'' b") auto
  then have "y = takeWhile (\<lambda>c. c \<noteq> CHR '':'') b"
    using hd_split [of "CHR '':''" b] by simp
  with s assms show ?thesis
    by (simp add: verifyPassword_def split_append_sep index_1 split: option.splits)
qed

lemma takeWhile_segment:
  assumes "sep \<notin> set k"
  shows "(takeWhile (\<lambda>c. c \<noteq> sep) b = k) = (b = k \<or> (\<exists>rest. b = k @ sep # rest))"
proof
  assume t: "takeWhile (\<lambda>c. c \<noteq> sep) b = k"
  show "b = k \<or> (\<exists>rest. b = k @ sep # rest)"
  proof (cases "dropWhile (\<lambda>c. c \<noteq> sep) b")
    case Nil
    with t takeWhile_dropWhile_id [of "\<lambda>c. c \<noteq> sep" b] show ?thesis by simp
  next
    case (Cons c cs)
    then have c: "c = sep"
      using hd_dropWhile [of "\<lambda>c. c \<noteq> sep" b] by auto
    have "takeWhile (\<lambda>c. c \<noteq> sep) b @ dropWhile (\<lambda>c. c \<noteq> sep) b = b"
      by simp
    then have "k @ sep # cs = b"
      by (simp only: t Cons c)
    then show ?thesis by blast
  qed
next
  assume "b = k \<or> (\<exists>rest. b = k @ sep # rest)"
  with assms show "takeWhile (\<lambda>c. c \<noteq> sep) b = k"
    by (auto simp: takeWhile_append)
qed

lemma verifyPassword_true_iff:
  "(verifyPassword sc p x = Inr True) =
     (\<exists>salt k. CHR '':'' \<notin> set salt \<and> sc p salt 64 = Some k
        \<and> (x = salt @ CHR '':'' # toString_hex k
            \<or> (\<exists>rest. x = salt @ CHR '':'' # toString_hex k @ CHR '':'' # rest)))"
proof (cases "CHR '':'' \<in> set x")
  case False
  then have "verifyPassword sc p x \<noteq> Inr True"
    by (simp add: verifyPassword_no_colon split: option.splits)
  moreover from False have "x \<noteq> salt @ CHR '':'' # y" for salt y
    by auto
  ultimately show ?thesis by auto
next
  case True
  then obtain a b where x: "x = a @ CHR '':'' # b" "CHR '':'' \<notin> set a"
    using split_list_first [of "CHR '':''" x] by auto
  have u: "salt = a \<and> y = b"
    if "a @ CHR '':'' # b = salt @ CHR '':'' # y" "CHR '':'' \<notin> set salt" for salt y
  proof -
    have "takeWhile (\<lambda>c. c \<noteq> CHR '':'') (a @ CHR '':'' # b) = a"
      "takeWhile (\<lambda>c. c \<noteq> CHR '':'') (salt @ CHR '':'' # y) = salt"
      using x(2) that(2) by (simp_all add: takeWhile_append)
    with that(1) have "salt = a" by simp
    with that(1) show ?thesis by simp
  qed
  show ?thesis
  proof
    assume "verifyPassword sc p x = Inr True"
    then obtain k where k: "sc p a 64 = Some k"
      "takeWhile (\<lambda>c. c \<noteq> CHR '':'') b = toString_hex k"
      by (auto simp: x verifyPassword_colon split: option.splits)
    from k(2) have "b = toString_hex k \<or> (\<exists>rest. b = toString_hex k @ CHR '':'' # rest)"
      by (simp add: takeWhile_segment colon_notin_hex)
    with x k(1) show "\<exists>salt k. CHR '':'' \<notin> set salt \<and> sc p salt 64 = Some k
        \<and> (x = salt @ CHR '':'' # toString_hex k
            \<or> (\<exists>rest. x = salt @ CHR '':'' # toString_hex k @ CHR '':'' # rest))"
      by auto
  next
    assume "\<exists>salt k. CHR '':'' \<notin> set salt \<and> sc p salt 64 = Some k
        \<and> (x = salt @ CHR '':'' # toString_hex k
            \<or> (\<exists>rest. x = salt @ CHR '':'' # toString_hex k @ CHR '':'' # rest))"
    then obtain salt k where s: "CHR '':'' \<notin> set salt" "sc p salt 64 = Some k"
      "x = salt @ CHR '':'' # toString_hex k
       \<or> (\<exists>rest. x = salt @ CHR '':'' # toString_hex k @ CHR '':'' # rest)"
      by blast
    from s(3) obtain y where y: "x = salt @ CHR '':'' # y"
      "y = toString_hex k \<or> (\<exists>rest. y = toString_hex k @ CHR '':'' # rest)"
      by auto
    from y(2) have "takeWhile (\<lambda>c. c \<noteq> CHR '':'') y = toString_hex k"
      by (simp add: takeWhile_segment colon_notin_hex)
    with s(1,2) y(1) show "verifyPassword sc p x = Inr True"
      by (simp add: verifyPassword_colon)
  qed
qed

lemma verifyPassword_trailing:
  "verifyPassword sc p ((toString_hex bs @ CHR '':'' # toString_hex k) @ CHR '':'' # rest)
     = verifyPassword sc p (toString_hex bs @ CHR '':'' # toString_hex k)"
proof -
  have 1: "takeWhile (\<lambda>c. c \<noteq> CHR '':'') (toString_hex k @ CHR '':'' # rest) = toString_hex k"
    by (simp add: takeWhile_segment colon_notin_hex)
  have 2: "takeWhile (\<lambda>c. c \<noteq> CHR '':'') (toString_hex k) = toString_hex k"
    using colon_notin_hex [of k] by auto
  have "verifyPassword sc p (toString_hex bs @ CHR '':'' # (toString_hex k @ CHR '':'' # rest))
     = verifyPassword sc p (toString_hex bs @ CHR '':'' # toString_hex k)"
    by (simp only: verifyPassword_colon [OF colon_notin_hex] 1 2)
  then show ?thesis by simp
qed

text \<open>
  What \<open>hashPassword\<close> returns is made of hex digits and one colon: there is no letter
  \<open>j\<close> in it.
\<close>

lemma j_notin_hex: "CHR ''j'' \<notin> set (toString_hex bs)"
  using set_toString_hex [of bs] by auto

lemma hashPassword_no_j:
  assumes "hashPassword sc ent p = Inr h"
  shows "CHR ''j'' \<notin> set h"
proof -
  from assms obtain k where "h = toString_hex (randomBytes ent 16) @ '':'' @ toString_hex k"
    by (auto simp: hashPassword_def Let_def split: option.splits)
  then show ?thesis
    by (simp add: j_notin_hex)
qed

lemma hashPassword_no_junk: "hashPassword sc ent p \<noteq> Inr (x @ '':junk'')"
  using hashPassword_no_j [of sc ent p "x @ '':junk''"] by auto

text \<open>
  As stated the claim fails in its "only if": \<open>verifyPassword\<close> takes the salt and the
  key from the first two segments of the hash and ignores what follows a second colon.
  The hash of the password \<open>pw\<close> followed by \<open>:junk\<close> is accepted for \<open>pw\<close>, and so is
  \<open>00:7077:junk\<close> (salt \<open>00\<close>, under which the key of \<open>pw\<close> is \<open>7077\<close>), although
  neither is the hash of \<open>pw\<close> under its salt, nor anything that \<open>hashPassword\<close> returns.
\<close>

theorem verifyPassword_counterexample:
  "hashPassword toy_scrypt (\<lambda>i. 7) ''pw''
     = Inr (toString_hex (randomBytes (\<lambda>i. 7) 16) @ '':'' @ toString_hex [0x70, 0x77])
   \<and> verifyPassword toy_scrypt ''pw''
        (toString_hex (randomBytes (\<lambda>i. 7) 16) @ '':'' @ toString_hex [0x70, 0x77] @ '':junk'')
       = Inr True
   \<and> toString_hex (randomBytes (\<lambda>i. 7) 16) @ '':'' @ toString_hex [0x70, 0x77] @ '':junk''
       \<noteq> toString_hex (randomBytes (\<lambda>i. 7) 16) @ '':'' @ toString_hex [0x70, 0x77]
   \<and> (\<forall>sc ent p. hashPassword sc ent p
         \<noteq> Inr (toString_hex (randomBytes (\<lambda>i. 7) 16) @ '':'' @ toString_hex [0x70, 0x77]
                  @ '':junk''))
   \<and> verifyPassword toy_scrypt ''pw'' ''00:7077:junk'' = Inr True
   \<and> toy_scrypt ''pw'' ''00'' 64 = Some [0x70, 0x77]
   \<and> ''00:7077:junk'' \<noteq> ''00'' @ '':'' @ toString_hex [0x70, 0x77]
   \<and> (\<forall>sc ent p. hashPassword sc ent p \<noteq> Inr ''00:7077:junk'')"
proof -
  let ?s = "toString_hex (randomBytes (\<lambda>i. 7) 16)"
  let ?k = "toString_hex [0x70, 0x77]"
  have 1: "hashPassword toy_scrypt (\<lambda>i. 7) ''pw'' = Inr (?s @ '':'' @ ?k)"
    by (simp add: hashPassword_def toy_scrypt_def)
  have t: "toy_scrypt ''pw'' salt 64 = Some [0x70, 0x77]" for salt
    by (simp add: toy_scrypt_def)
  have "verifyPassword toy_scrypt ''pw'' ((?s @ CHR '':'' # ?k) @ CHR '':'' # ''junk'') = Inr True"
    unfolding verifyPassword_trailing by (simp add: verifyPassword_salted t)
  then have 2: "verifyPassword toy_scrypt ''pw'' (?s @ '':'' @ ?k @ '':junk'') = Inr True"
    by simp
  have 3: "?s @ '':'' @ ?k @ '':junk'' \<noteq> ?s @ '':'' @ ?k"
    by simp
  have 4: "hashPassword sc ent p \<noteq> Inr (?s @ '':'' @ ?k @ '':junk'')" for sc ent p
    using hashPassword_no_junk [of sc ent p "?s @ '':'' @ ?k"] by simp
  have k: "''7077'' = ?k"
    by (simp add: toString_hex_def hexByte_def hexDigit_def)
  have "verifyPassword toy_scrypt ''pw'' (''00'' @ CHR '':'' # (?k @ CHR '':'' # ''junk'')) = Inr True"
    by (subst verifyPassword_colon) (simp_all add: t takeWhile_segment colon_notin_hex)
  then have 5: "verifyPassword toy_scrypt ''pw'' ''00:7077:junk'' = Inr True"
    unfolding k [symmetric] by simp
  have 6: "''00:7077:junk'' \<noteq> ''00'' @ '':'' @ ?k"
    unfolding k [symmetric] by simp
  have 7: "hashPassword sc ent p \<noteq> Inr ''00:7077:junk''" for sc ent p
    using hashPassword_no_junk [of sc ent p "''00:7077''"] by simp
  from 1 2 3 4 5 t 6 7 show ?thesis by blast
qed

text \<open>
  C7, as the code has it. Round trip of password hashing. Let \<open>h\<close> be the hash that
  \<open>hashPassword\<close> makes of a password \<open>p\<close>, with whatever salt its random bytes give.
  Then \<open>verifyPassword\<close> accepts \<open>p\<close> against \<open>h\<close>; and for every password \<open>p'\<close> it
  answers exactly as hashing \<open>p'\<close> with that same salt and comparing with \<open>h\<close> would:
  true if and only if \<open>h\<close> is the hash of \<open>p'\<close> under that salt, which is when scrypt
  derives for \<open>p'\<close> the key it derived for \<open>p\<close>; false for every other password. (The
  derivation itself is the library's scrypt, a parameter here: a password other than \<open>p\<close>
  is one with another derived key under the salt.) What follows a second colon is
  ignored: \<open>h\<close> followed by a colon and any text is answered as \<open>h\<close> is. And over all
  strings \<open>x\<close>, not only hashes that \<open>hashPassword\<close> made: \<open>verifyPassword\<close> accepts a
  password against \<open>x\<close> if and only if \<open>x\<close> is a salt without colon, a colon and the hex
  text of the key derived from the password and that salt, either ending there or
  followed by a colon and any text.
\<close>

theorem verifyPassword_round_trip:
  assumes "hashPassword sc ent p = Inr h"
  shows "verifyPassword sc p h = Inr True
         \<and> (\<forall>p'. verifyPassword sc p' h =
                    (case hashPassword sc ent p' of Inl f \<Rightarrow> Inl f | Inr h' \<Rightarrow> Inr (h' = h)))
         \<and> (\<forall>p' k k'. sc p (toString_hex (randomBytes ent 16)) 64 = Some k
                       \<and> sc p' (toString_hex (randomBytes ent 16)) 64 = Some k'
                     \<longrightarrow> verifyPassword sc p' h = Inr (k' = k))
         \<and> (\<forall>p' rest. verifyPassword sc p' (h @ CHR '':'' # rest) = verifyPassword sc p' h)
         \<and> (\<forall>p' x. (verifyPassword sc p' x = Inr True) =
                (\<exists>salt k. CHR '':'' \<notin> set salt \<and> sc p' salt 64 = Some k
                   \<and> (x = salt @ CHR '':'' # toString_hex k
                       \<or> (\<exists>rest. x = salt @ CHR '':'' # toString_hex k @ CHR '':'' # rest))))"
proof -
  from assms obtain k where h: "h = toString_hex (randomBytes ent 16) @ CHR '':'' # toString_hex k"
    by (auto simp: hashPassword_def Let_def split: option.splits)
  have a: "verifyPassword sc p h = Inr True
         \<and> (\<forall>p'. verifyPassword sc p' h =
                    (case hashPassword sc ent p' of Inl f \<Rightarrow> Inl f | Inr h' \<Rightarrow> Inr (h' = h)))
         \<and> (\<forall>p' k k'. sc p (toString_hex (randomBytes ent 16)) 64 = Some k
                       \<and> sc p' (toString_hex (randomBytes ent 16)) 64 = Some k'
                     \<longrightarrow> verifyPassword sc p' h = Inr (k' = k))"
    using assms toString_hex_inj
    by (auto simp: hashPassword_def verifyPassword_salted Let_def split: option.splits)
  have b: "verifyPassword sc p' (h @ CHR '':'' # rest) = verifyPassword sc p' h" for p' rest
    unfolding h by (rule verifyPassword_trailing)
  from a b verifyPassword_true_iff [of sc] show ?thesis
    by blast
qed

theorem verifyPassword_round_trip_witness:
  "hashPassword toy_scrypt (\<lambda>i. 7) ''pw''
     = Inr (toString_hex (randomBytes (\<lambda>i. 7) 16) @ '':'' @ toString_hex [0x70, 0x77])
   \<and> verifyPassword toy_scrypt ''pw''
        (toString_hex (randomBytes (\<lambda>i. 7) 16) @ '':'' @ toString_hex [0x70, 0x77]) = Inr True
   \<and> verifyPassword toy_scrypt ''pW''
        (toString_hex (randomBytes (\<lambda>i. 7) 16) @ '':'' @ toString_hex [0x70, 0x77]) = Inr False
   \<and> verifyPassword toy_scrypt ''pW''
        ((toString_hex (randomBytes (\<lambda>i. 7) 16) @ '':'' @ toString_hex [0x70, 0x77])
           @ CHR '':'' # ''junk'') = Inr False"
proof -
  let ?h = "toString_hex (randomBytes (\<lambda>i. 7) 16) @ '':'' @ toString_hex [0x70, 0x77]"
  have h: "hashPassword toy_scrypt (\<lambda>i. 7) ''pw'' = Inr ?h"
    by (simp add: hashPassword_def toy_scrypt_def)
  have h': "hashPassword toy_scrypt (\<lambda>i. 7) ''pW''
              = Inr (toString_hex (randomBytes (\<lambda>i. 7) 16) @ '':'' @ toString_hex [0x70, 0x57])"
    by (simp add: hashPassword_def toy_scrypt_def)
  have ne: "toString_hex [0x70, 0x57] \<noteq> toString_hex [0x70, 0x77]"
    by (simp add: toString_hex_def hexByte_def hexDigit_def)
  from verifyPassword_round_trip [OF h] h h' ne show ?thesis
    by simp
qed

section \<open>The domain whitelist\<close>

text \<open>
  Lower case is a fixed point of the lower-casing of ASCII, so a whitelist entry with a
  letter from A to Z is equal to no lower-cased ASCII domain: it admits no ASCII email at
  all.
\<close>

lemma toLowerCase_char_idem: "toLowerCase_char (toLowerCase_char c) = toLowerCase_char c"
proof -
  have "of_char (char_of (n + 32 :: nat)) = n + 32" if "n \<le> 90" for n :: nat
    using that by (simp add: of_char_of)
  then show ?thesis
    by (auto simp: toLowerCase_char_def Let_def)
qed

lemma isASCII_split: "isASCII s \<Longrightarrow> list_all isASCII (split sep s)"
  by (induction s) (auto simp: isASCII_def split: list.splits)

lemma isASCII_index: "list_all isASCII xs \<Longrightarrow> index xs i = Some x \<Longrightarrow> isASCII x"
  by (induction xs i rule: index.induct) auto

lemma isEmailAllowed_mixed_case_entry:
  assumes "isASCII mail" "map toLowerCase_char entry \<noteq> entry"
  shows "isEmailAllowed lower [entry] mail = False"
proof -
  have "toLowerCase lower x \<noteq> entry" if "index (split CHR ''@'' mail) 1 = Some x" for x
  proof -
    from assms(1) that have "isASCII x"
      using isASCII_split isASCII_index by blast
    then have "toLowerCase lower x = map toLowerCase_char x"
      by (simp add: toLowerCase_def)
    moreover have "map toLowerCase_char (map toLowerCase_char x) = map toLowerCase_char x"
      by (simp add: toLowerCase_char_idem)
    ultimately show ?thesis
      using assms(2) by auto
  qed
  then show ?thesis
    by (auto simp: isEmailAllowed_def split: option.splits)
qed

text \<open>
  C6. The whitelist is meant to match without regard to letter case, and the domain of
  the email is put in lower case; the entries of the whitelist are not. With the
  whitelist configured as \<open>Example.com\<close> the address \<open>user@example.com\<close> is refused,
  although its domain is that entry up to case; the same whitelist in lower case
  accepts the address however it is capitalised.
\<close>

theorem isEmailAllowed_entry_case:
  "isEmailAllowed lower (ALLOWED_DOMAINS (Some ''Example.com'')) ''user@example.com'' = False
   \<and> isEmailAllowed lower (ALLOWED_DOMAINS (Some ''example.com'')) ''user@Example.COM'' = True"
  by code_simp

section \<open>Facts about the rotation\<close>

lemma nonNull_iff [simp]: "nonNull v \<longleftrightarrow> v \<noteq> None"
  by (simp add: nonNull_def split: option.splits)

lemma presentedD:
  assumes "presented h = Some t"
  obtains cookies where "parseCookies h = Some cookies" "cookies ''refresh-token'' = Some t" "t \<noteq> []"
  using assms by (auto simp: presented_def split: option.splits if_splits)

lemma POST_invalid:
  assumes "presented h = Some t" "\<not> usable (now_check e) (refreshTokens d t)"
  shows "POST e h d = (invalid_token_response, d)"
proof -
  from assms(1) obtain cookies where c: "parseCookies h = Some cookies" "cookies ''refresh-token'' = Some t" "t \<noteq> []"
    by (rule presentedD)
  show ?thesis
    using c assms(2)
    by (auto simp: POST_def usable_def prisma_refreshToken_findUnique_include_user_def
           split: option.splits)
qed

lemma POST_usable:
  assumes "presented h = Some t" "refreshTokens d t = Some r" "usable (now_check e) (Some r)"
  shows "POST e h d =
     (case prisma_refreshToken_create (rt_userId r) (new_token e) (now_create e + REFRESH_TOKEN_TTL e * 1000) (revoked_at (now_revoke e) t r d) of
        Inl f \<Rightarrow> (refresh_failed_response, revoked_at (now_revoke e) t r d)
      | Inr d2 \<Rightarrow>
          (case prisma_user_findUnique_id d (rt_userId r) of
             None \<Rightarrow> (refresh_failed_response, d2)
           | Some u \<Rightarrow>
               (case sign e \<lparr>c_userId = rt_userId r, c_email = Some (u_email u), c_type = ''access''\<rparr> (ACCESS_TOKEN_TTL e) of
                  None \<Rightarrow> (refresh_failed_response, d2)
                | Some at \<Rightarrow> (token_response e at u (new_token e), d2))))"
proof -
  from assms(1) obtain cookies where c: "parseCookies h = Some cookies" "cookies ''refresh-token'' = Some t" "t \<noteq> []"
    by (rule presentedD)
  show ?thesis
    using c assms(2-) unfolding revoked_at_def new_token_def
    by (simp add: POST_def usable_def prisma_refreshToken_findUnique_include_user_def
          prisma_refreshToken_update_def Let_def)
qed

lemma create_after_revoke:
  "prisma_refreshToken_create uid new exp (revoked_at now t r d) =
     (if new = t \<or> refreshTokens d new \<noteq> None then Inl P2002
      else if prisma_user_findUnique_id d uid = None then Inl P2003
      else Inr (d\<lparr>refreshTokens := (refreshTokens d)
                   (t \<mapsto> r\<lparr>rt_revokedAt := Some now\<rparr>,
                    new \<mapsto> \<lparr>rt_userId = uid, rt_expiresAt = exp, rt_revokedAt = None\<rparr>)\<rparr>))"
  by (simp add: prisma_refreshToken_create_def revoked_at_def prisma_user_findUnique_id_def)

lemma status_simps:
  "status no_token_response = 401" "status invalid_token_response = 401"
  "status refresh_failed_response = 500" "status (token_response e at u n) = 200"
  "status revocation_failed_response = 500" "status success_response = 200"
  by (simp_all add: no_token_response_def invalid_token_response_def refresh_failed_response_def
        token_response_def revocation_failed_response_def success_response_def)

lemma POST_no_token:
  assumes "parseCookies h \<noteq> None" "presented h = None"
  shows "POST e h d = (no_token_response, d)"
  using assms by (auto simp: POST_def presented_def split: option.splits if_splits)

lemma POST_unparsed:
  assumes "parseCookies h = None"
  shows "POST e h d = (refresh_failed_response, d)"
  using assms by (simp add: POST_def)

lemma POST_usable_outcome:
  assumes "presented h = Some t" "refreshTokens d t = Some r" "usable (now_check e) (Some r)"
  shows "POST e h d =
     (if refreshTokens d (new_token e) \<noteq> None \<or> prisma_user_findUnique_id d (rt_userId r) = None
      then (refresh_failed_response, revoked_at (now_revoke e) t r d)
      else
        (case prisma_user_findUnique_id d (rt_userId r) of
           None \<Rightarrow> (refresh_failed_response, d)
         | Some u \<Rightarrow>
            (case sign e \<lparr>c_userId = rt_userId r, c_email = Some (u_email u), c_type = ''access''\<rparr> (ACCESS_TOKEN_TTL e) of
               None \<Rightarrow> refresh_failed_response
             | Some at \<Rightarrow> token_response e at u (new_token e),
             d\<lparr>refreshTokens := (refreshTokens d)
                   (t \<mapsto> r\<lparr>rt_revokedAt := Some (now_revoke e)\<rparr>,
                    new_token e \<mapsto> successor e r)\<rparr>)))"
proof -
  have ne: "refreshTokens d (new_token e) = None \<Longrightarrow> new_token e \<noteq> t"
    using assms(2) by auto
  show ?thesis
    using ne
    by (auto simp: POST_usable [OF assms] create_after_revoke successor_def split: option.splits)
qed



lemma POST_200D:
  assumes "status (fst (POST e h d)) = 200"
  obtains t r u at where "presented h = Some t" "refreshTokens d t = Some r"
    "usable (now_check e) (Some r)" "refreshTokens d (new_token e) = None"
    "prisma_user_findUnique_id d (rt_userId r) = Some u"
    "sign e \<lparr>c_userId = rt_userId r, c_email = Some (u_email u), c_type = ''access''\<rparr> (ACCESS_TOKEN_TTL e) = Some at"
    "POST e h d = (token_response e at u (new_token e),
        d\<lparr>refreshTokens := (refreshTokens d)
                   (t \<mapsto> r\<lparr>rt_revokedAt := Some (now_revoke e)\<rparr>,
                    new_token e \<mapsto> successor e r)\<rparr>)"
proof (cases "parseCookies h")
  case None
  with assms show ?thesis by (simp add: POST_unparsed status_simps)
next
  case (Some cookies)
  show ?thesis
  proof (cases "presented h")
    case None
    with Some assms show ?thesis by (simp add: POST_no_token status_simps)
  next
    case (Some t)
    note p = this
    show ?thesis
    proof (cases "usable (now_check e) (refreshTokens d t)")
      case False
      with p assms show ?thesis by (simp add: POST_invalid status_simps)
    next
      case True
      then obtain r where r: "refreshTokens d t = Some r" "usable (now_check e) (Some r)"
        by (auto simp: usable_def split: option.splits)
      from assms show ?thesis
        using that [OF p r]
        by (auto simp: POST_usable_outcome [OF p r] status_simps split: if_splits option.splits)
    qed
  qed
qed

lemma trim_cookie:
  "trim ''refresh-token=tok'' = ''refresh-token=tok''"
  "trim ''refresh-token=%'' = ''refresh-token=%''"
  by code_simp+

lemma presented_tok: "presented (Some ''refresh-token=tok'') = Some ''tok''"
  by (simp add: presented_def parseCookies_def parseCookies_step_def trim_cookie
        decodeURIComponent_def)

lemma presented_absent: "parseCookies None \<noteq> None" "presented None = None"
  by (simp_all add: presented_def parseCookies_def)

lemma unparsed: "parseCookies (Some ''refresh-token=%'') = None"
  by (simp add: parseCookies_def parseCookies_step_def trim_cookie decodeURIComponent_def)

lemma new_token_fresh: "length s \<noteq> 128 \<Longrightarrow> toString_hex (randomBytes ent 64) \<noteq> s"
  using length_new_token [of ent] by auto


lemma usable_revoked [simp]: "\<not> usable now (Some (r\<lparr>rt_revokedAt := Some x\<rparr>))"
  by (simp add: usable_def)

lemma RAT_invalid:
  assumes "refreshToken token = Some t" "t \<noteq> []" "\<not> usable (now_rotate_check j) (refreshTokens d t)"
  shows "refreshAccessToken j token d = (Inl (Error ''Invalid refresh token''), d)"
  using assms
  by (auto simp: refreshAccessToken_def usable_def prisma_refreshToken_findUnique_def
           split: option.splits)

lemma RAT_usable_outcome:
  assumes "refreshToken token = Some t" "t \<noteq> []" "refreshTokens d t = Some r"
    "usable (now_rotate_check j) (Some r)"
  shows "refreshAccessToken j token d =
     (case userId token of
        None \<Rightarrow> (Inl PrismaValidationError, revoked_at (now_rotate_revoke j) t r d)
      | Some uid \<Rightarrow>
          if refreshTokens d (j_new_token j) \<noteq> None
          then (Inl P2002, revoked_at (now_rotate_revoke j) t r d)
          else if prisma_user_findUnique_id d uid = None
          then (Inl P2003, revoked_at (now_rotate_revoke j) t r d)
          else (Inr (token\<lparr>refreshToken := Some (j_new_token j),
                           refreshTokenExpires :=
                             Some (now_rotate_expires j + J_REFRESH_TOKEN_TTL j * 1000)\<rparr>),
                d\<lparr>refreshTokens := (refreshTokens d)
                   (t \<mapsto> r\<lparr>rt_revokedAt := Some (now_rotate_revoke j)\<rparr>,
                    j_new_token j \<mapsto>
                      \<lparr>rt_userId = uid,
                       rt_expiresAt = now_rotate_create j + J_REFRESH_TOKEN_TTL j * 1000,
                       rt_revokedAt = None\<rparr>)\<rparr>))"
proof -
  have ne: "refreshTokens d (j_new_token j) = None \<Longrightarrow> j_new_token j \<noteq> t"
    using assms(3) by auto
  have d1: "prisma_refreshToken_update t (now_rotate_revoke j) d = Inr (revoked_at (now_rotate_revoke j) t r d)"
    using assms(3) by (simp add: prisma_refreshToken_update_def revoked_at_def)
  show ?thesis
    using assms ne
    by (auto simp: refreshAccessToken_def usable_def prisma_refreshToken_findUnique_def d1
          createRefreshToken_def create_after_revoke j_new_token_def Let_def
          split: option.splits)
qed




lemma presented_nonempty: "presented h = Some t \<Longrightarrow> t \<noteq> []"
  by (auto simp: presented_def split: option.splits if_splits)

lemma POST_200_iff:
  assumes p: "presented h = Some t"
  shows "status (fst (POST e h d)) = 200 \<longleftrightarrow>
       (\<exists>r u. refreshTokens d t = Some r \<and> usable (now_check e) (Some r)
              \<and> refreshTokens d (toString_hex (randomBytes (random e) 64)) = None
              \<and> prisma_user_findUnique_id d (rt_userId r) = Some u
              \<and> sign e \<lparr>c_userId = rt_userId r, c_email = Some (u_email u), c_type = ''access''\<rparr>
                    (ACCESS_TOKEN_TTL e) \<noteq> None)"
proof
  assume "status (fst (POST e h d)) = 200"
  then show "\<exists>r u. refreshTokens d t = Some r \<and> usable (now_check e) (Some r)
              \<and> refreshTokens d (toString_hex (randomBytes (random e) 64)) = None
              \<and> prisma_user_findUnique_id d (rt_userId r) = Some u
              \<and> sign e \<lparr>c_userId = rt_userId r, c_email = Some (u_email u), c_type = ''access''\<rparr>
                    (ACCESS_TOKEN_TTL e) \<noteq> None"
    using p by (elim POST_200D) (auto simp: new_token_def)
next
  assume "\<exists>r u. refreshTokens d t = Some r \<and> usable (now_check e) (Some r)
              \<and> refreshTokens d (toString_hex (randomBytes (random e) 64)) = None
              \<and> prisma_user_findUnique_id d (rt_userId r) = Some u
              \<and> sign e \<lparr>c_userId = rt_userId r, c_email = Some (u_email u), c_type = ''access''\<rparr>
                    (ACCESS_TOKEN_TTL e) \<noteq> None"
  then obtain r u at where r: "refreshTokens d t = Some r" "usable (now_check e) (Some r)"
    and f: "refreshTokens d (new_token e) = None" "prisma_user_findUnique_id d (rt_userId r) = Some u"
      "sign e \<lparr>c_userId = rt_userId r, c_email = Some (u_email u), c_type = ''access''\<rparr>
                    (ACCESS_TOKEN_TTL e) = Some at"
    by (auto simp: new_token_def)
  show "status (fst (POST e h d)) = 200"
    by (simp add: POST_usable_outcome [OF p r] f status_simps)
qed




lemma store0_tok: "refreshTokens store0 ''tok'' = Some tok_row"
  by (simp add: store0_def)

lemma store0_fresh: "refreshTokens store0 (toString_hex (randomBytes ent 64)) = None"
  by (simp add: store0_def new_token_fresh)

lemma store0_alice: "prisma_user_findUnique_id store0 ''u1'' = Some alice"
  by (simp add: prisma_user_findUnique_id_def store0_def alice_def)

lemma store0_mallory: "prisma_user_findUnique_id store0 ''u2'' = Some mallory"
  by (simp add: prisma_user_findUnique_id_def store0_def alice_def mallory_def)

lemma RAT_InrD:
  assumes "fst (refreshAccessToken j token d) = Inr token'"
  obtains t r uid where "refreshToken token = Some t" "t \<noteq> []" "refreshTokens d t = Some r"
    "usable (now_rotate_check j) (Some r)" "userId token = Some uid"
    "refreshTokens d (j_new_token j) = None" "prisma_user_findUnique_id d uid \<noteq> None"
    "refreshAccessToken j token d =
       (Inr (token\<lparr>refreshToken := Some (j_new_token j),
                    refreshTokenExpires :=
                      Some (now_rotate_expires j + J_REFRESH_TOKEN_TTL j * 1000)\<rparr>),
        d\<lparr>refreshTokens := (refreshTokens d)
             (t \<mapsto> r\<lparr>rt_revokedAt := Some (now_rotate_revoke j)\<rparr>,
              j_new_token j \<mapsto>
                \<lparr>rt_userId = uid,
                 rt_expiresAt = now_rotate_create j + J_REFRESH_TOKEN_TTL j * 1000,
                 rt_revokedAt = None\<rparr>)\<rparr>)"
proof (cases "refreshToken token")
  case None
  with assms show ?thesis by (simp add: refreshAccessToken_def)
next
  case (Some t)
  note p = this
  show ?thesis
  proof (cases "t = []")
    case True
    with p assms show ?thesis by (simp add: refreshAccessToken_def)
  next
    case ne: False
    show ?thesis
    proof (cases "usable (now_rotate_check j) (refreshTokens d t)")
      case False
      with p ne assms show ?thesis by (simp add: RAT_invalid)
    next
      case True
      then obtain r where r: "refreshTokens d t = Some r" "usable (now_rotate_check j) (Some r)"
        by (auto simp: usable_def split: option.splits)
      from assms show ?thesis
        using that [OF p ne r]
        by (auto simp: RAT_usable_outcome [OF p ne r] split: if_splits option.splits)
    qed
  qed
qed

lemma DELETE_presented:
  assumes "presented h = Some t"
  shows "DELETE now h d = (success_response, revokeRefreshToken now t d)"
proof -
  from assms obtain cookies where "parseCookies h = Some cookies"
    "cookies ''refresh-token'' = Some t" "t \<noteq> []"
    by (rule presentedD)
  then show ?thesis
    by (simp add: DELETE_def revokeRefreshToken_def)
qed

lemma DELETE_absent:
  assumes "parseCookies h \<noteq> None" "presented h = None"
  shows "DELETE now h d = (success_response, d)"
  using assms by (auto simp: DELETE_def presented_def split: option.splits if_splits)

section \<open>The responses of the token endpoint\<close>

text \<open>
  C9, as the code has it. Every response of POST is one of four: 200 with the access
  token, the user and the new refresh-token cookie; 401 "No refresh token provided",
  which carries no Set-Cookie header; 401 "Invalid refresh token" with the cookie
  cleared; 500 "Token refresh failed" with the cookie cleared. DELETE answers 200
  \<open>{success: true}\<close> with the cookie cleared whenever the Cookie header parses: also
  when the cookie is absent, the token unknown or already revoked. When the header does
  not parse it answers 500 "Token revocation failed", with no Set-Cookie header.
\<close>

theorem http_boundary_responses:
  "(fst (POST e h d) = no_token_response
    \<or> fst (POST e h d) = invalid_token_response
    \<or> fst (POST e h d) = refresh_failed_response
    \<or> (\<exists>at u. fst (POST e h d) = token_response e at u (toString_hex (randomBytes (random e) 64))))
   \<and> fst (DELETE now h d) =
       (if parseCookies h = None then revocation_failed_response else success_response)"
proof -
  have "fst (DELETE now h d) =
       (if parseCookies h = None then revocation_failed_response else success_response)"
    by (auto simp: DELETE_def split: option.splits)
  moreover have "fst (POST e h d) = no_token_response
    \<or> fst (POST e h d) = invalid_token_response
    \<or> fst (POST e h d) = refresh_failed_response
    \<or> (\<exists>at u. fst (POST e h d) = token_response e at u (toString_hex (randomBytes (random e) 64)))"
  proof (cases "parseCookies h")
    case None
    then show ?thesis by (simp add: POST_unparsed)
  next
    case (Some cookies)
    show ?thesis
    proof (cases "presented h")
      case None
      with Some show ?thesis by (simp add: POST_no_token)
    next
      case (Some t)
      note p = this
      show ?thesis
      proof (cases "usable (now_check e) (refreshTokens d t)")
        case False
        with p show ?thesis by (simp add: POST_invalid)
      next
        case True
        then obtain r where r: "refreshTokens d t = Some r" "usable (now_check e) (Some r)"
          by (auto simp: usable_def split: option.splits)
        show ?thesis
          by (auto simp: POST_usable_outcome [OF p r] new_token_def split: option.splits)
      qed
    qed
  qed
  ultimately show ?thesis by blast
qed

text \<open>
  As stated the claim fails: POST without a Cookie header answers 401 and clears no
  cookie, and DELETE with a cookie value that is not a valid escape sequence answers 500
  and clears no cookie.
\<close>

theorem http_boundary_counterexample:
  "status (fst (POST env0 None store0)) = 401
   \<and> set_cookie (fst (POST env0 None store0)) = None
   \<and> status (fst (DELETE 1000 (Some ''refresh-token=%'') store0)) = 500
   \<and> set_cookie (fst (DELETE 1000 (Some ''refresh-token=%'') store0)) = None"
  by (simp add: POST_no_token presented_absent DELETE_def unparsed no_token_response_def
        revocation_failed_response_def)

theorem http_boundary_responses_witness:
  "fst (DELETE 1000 None store0) = success_response
   \<and> fst (DELETE 1000 (Some ''refresh-token=tok'') store0) = success_response
   \<and> fst (DELETE 1000 (Some ''refresh-token=%'') store0) = revocation_failed_response
   \<and> fst (POST env0 None store0) = no_token_response"
proof -
  have p: "parseCookies (Some ''refresh-token=tok'') \<noteq> None"
    using presented_tok by (auto simp: presented_def split: option.splits)
  from http_boundary_responses [of env0 None store0 1000]
    http_boundary_responses [of env0 "Some ''refresh-token=tok''" store0 1000]
    http_boundary_responses [of env0 "Some ''refresh-token=%''" store0 1000]
  show ?thesis
    using p by (simp add: presented_absent unparsed POST_no_token)
qed

section \<open>When a rotation succeeds\<close>




section \<open>What a rotation changes in the store\<close>

text \<open>
  C10. A successful rotation changes the store in two places and nowhere else: the row
  of the presented token gets its \<open>revokedAt\<close> set, and one row is inserted, under a
  token value that had no row before. The table of refresh tokens is otherwise the same
  function, and the users are the same. This holds for a POST that answers 200 and for a
  \<open>refreshAccessToken\<close> that returns.
\<close>

theorem rotation_frame:
  "(status (fst (POST e h d)) = 200 \<longrightarrow>
      (\<exists>t r. presented h = Some t \<and> refreshTokens d t = Some r
         \<and> refreshTokens d (toString_hex (randomBytes (random e) 64)) = None
         \<and> snd (POST e h d) =
             d\<lparr>refreshTokens := (refreshTokens d)
                  (t \<mapsto> r\<lparr>rt_revokedAt := Some (now_revoke e)\<rparr>,
                   toString_hex (randomBytes (random e) 64) \<mapsto>
                     \<lparr>rt_userId = rt_userId r,
                      rt_expiresAt = now_create e + REFRESH_TOKEN_TTL e * 1000,
                      rt_revokedAt = None\<rparr>)\<rparr>))
   \<and> (fst (refreshAccessToken j token d) = Inr token' \<longrightarrow>
      (\<exists>t r uid. refreshToken token = Some t \<and> refreshTokens d t = Some r
         \<and> userId token = Some uid
         \<and> refreshTokens d (toString_hex (randomBytes (random_rotate j) 64)) = None
         \<and> snd (refreshAccessToken j token d) =
             d\<lparr>refreshTokens := (refreshTokens d)
                  (t \<mapsto> r\<lparr>rt_revokedAt := Some (now_rotate_revoke j)\<rparr>,
                   toString_hex (randomBytes (random_rotate j) 64) \<mapsto>
                     \<lparr>rt_userId = uid,
                      rt_expiresAt = now_rotate_create j + J_REFRESH_TOKEN_TTL j * 1000,
                      rt_revokedAt = None\<rparr>)\<rparr>))"
proof (intro conjI impI)
  assume "status (fst (POST e h d)) = 200"
  then show "\<exists>t r. presented h = Some t \<and> refreshTokens d t = Some r
         \<and> refreshTokens d (toString_hex (randomBytes (random e) 64)) = None
         \<and> snd (POST e h d) =
             d\<lparr>refreshTokens := (refreshTokens d)
                  (t \<mapsto> r\<lparr>rt_revokedAt := Some (now_revoke e)\<rparr>,
                   toString_hex (randomBytes (random e) 64) \<mapsto>
                     \<lparr>rt_userId = rt_userId r,
                      rt_expiresAt = now_create e + REFRESH_TOKEN_TTL e * 1000,
                      rt_revokedAt = None\<rparr>)\<rparr>"
    by (elim POST_200D) (auto simp: new_token_def successor_def)
next
  assume "fst (refreshAccessToken j token d) = Inr token'"
  then show "\<exists>t r uid. refreshToken token = Some t \<and> refreshTokens d t = Some r
         \<and> userId token = Some uid
         \<and> refreshTokens d (toString_hex (randomBytes (random_rotate j) 64)) = None
         \<and> snd (refreshAccessToken j token d) =
             d\<lparr>refreshTokens := (refreshTokens d)
                  (t \<mapsto> r\<lparr>rt_revokedAt := Some (now_rotate_revoke j)\<rparr>,
                   toString_hex (randomBytes (random_rotate j) 64) \<mapsto>
                     \<lparr>rt_userId = uid,
                      rt_expiresAt = now_rotate_create j + J_REFRESH_TOKEN_TTL j * 1000,
                      rt_revokedAt = None\<rparr>)\<rparr>"
    by (elim RAT_InrD) (auto simp: j_new_token_def)
qed

theorem rotation_frame_witness:
  "status (fst (POST env0 (Some ''refresh-token=tok'') store0)) = 200
   \<and> snd (POST env0 (Some ''refresh-token=tok'') store0) =
       store0\<lparr>refreshTokens := (refreshTokens store0)
          (''tok'' \<mapsto> tok_row\<lparr>rt_revokedAt := Some 1000\<rparr>,
           toString_hex (randomBytes (\<lambda>i. 0) 64) \<mapsto>
             \<lparr>rt_userId = ''u1'', rt_expiresAt = 2592001000, rt_revokedAt = None\<rparr>)\<rparr>
   \<and> fst (refreshAccessToken jenv0 jwt0 store0) =
       Inr (jwt0\<lparr>refreshToken := Some (toString_hex (randomBytes (\<lambda>i. 1) 64)),
                  refreshTokenExpires := Some 2592001000\<rparr>)
   \<and> snd (refreshAccessToken jenv0 jwt0 store0) =
       store0\<lparr>refreshTokens := (refreshTokens store0)
          (''tok'' \<mapsto> tok_row\<lparr>rt_revokedAt := Some 1000\<rparr>,
           toString_hex (randomBytes (\<lambda>i. 1) 64) \<mapsto>
             \<lparr>rt_userId = ''u1'', rt_expiresAt = 2592001000, rt_revokedAt = None\<rparr>)\<rparr>"
proof -
  let ?h = "Some ''refresh-token=tok''"
  have u: "usable (now_check env0) (Some tok_row)" "usable (now_rotate_check jenv0) (Some tok_row)"
    by (simp_all add: usable_def tok_row_def env0_def jenv0_def)
  have a: "prisma_user_findUnique_id store0 (rt_userId tok_row) = Some alice"
    by (simp add: tok_row_def store0_alice)
  have s: "sign env0 c ttl \<noteq> None" for c ttl
    by (simp add: env0_def)
  have ok: "status (fst (POST env0 ?h store0)) = 200"
    using u a s by (simp add: POST_200_iff [OF presented_tok] store0_tok store0_fresh)
  have q: "refreshToken jwt0 = Some ''tok''" "''tok'' \<noteq> []" "userId jwt0 = Some ''u1''"
    by (simp_all add: jwt0_def)
  have ok': "fst (refreshAccessToken jenv0 jwt0 store0) =
       Inr (jwt0\<lparr>refreshToken := Some (toString_hex (randomBytes (\<lambda>i. 1) 64)),
                  refreshTokenExpires := Some 2592001000\<rparr>)"
    by (simp add: RAT_usable_outcome [OF q(1,2) store0_tok u(2)] q(3) j_new_token_def
          store0_fresh store0_alice)
       (simp add: jenv0_def)
  from rotation_frame [of env0 ?h store0 jenv0 jwt0] ok ok'
  show ?thesis
    by (simp add: presented_tok store0_tok q) (simp add: env0_def jenv0_def tok_row_def)
qed

section \<open>Revocation\<close>

text \<open>
  As stated the claim fails: a token revoked at time 500 and revoked again at time 900,
  by \<open>revokeRefreshToken\<close> or by DELETE, ends with the revocation time 900.
\<close>

theorem revoke_again_counterexample:
  "map_option rt_revokedAt (refreshTokens store_revoked ''tok'') = Some (Some 500)
   \<and> map_option rt_revokedAt (refreshTokens (revokeRefreshToken 900 ''tok'' store_revoked) ''tok'')
       = Some (Some 900)
   \<and> map_option rt_revokedAt
        (refreshTokens (snd (DELETE 900 (Some ''refresh-token=tok'') store_revoked)) ''tok'')
       = Some (Some 900)"
proof -
  obtain cookies where c: "parseCookies (Some ''refresh-token=tok'') = Some cookies"
    "cookies ''refresh-token'' = Some ''tok''"
    using presented_tok by (rule presentedD)
  show ?thesis
    by (simp add: DELETE_def c revokeRefreshToken_def prisma_refreshToken_updateMany_def
          store_revoked_def)
qed

text \<open>
  C4, as the code has it. Revoking sets \<open>revokedAt\<close> of the row with that token value
  to the current time whether or not it was set before: a token once revoked stays
  revoked, with the time of the latest revocation. No other row and no user changes; for
  an unknown token nothing changes. Revoking is never an error: DELETE answers with its
  success response when the cookie presents a token, whatever the state of the token,
  and when there is no cookie.
\<close>

theorem revoke_unconditional:
  "refreshTokens (revokeRefreshToken now t d) t
     = map_option (\<lambda>r. r\<lparr>rt_revokedAt := Some now\<rparr>) (refreshTokens d t)
   \<and> (\<forall>t'. t' \<noteq> t \<longrightarrow> refreshTokens (revokeRefreshToken now t d) t' = refreshTokens d t')
   \<and> users (revokeRefreshToken now t d) = users d
   \<and> (presented h = Some t \<longrightarrow> DELETE now h d = (success_response, revokeRefreshToken now t d))
   \<and> (parseCookies h \<noteq> None \<and> presented h = None \<longrightarrow> DELETE now h d = (success_response, d))"
  by (auto simp: revokeRefreshToken_def prisma_refreshToken_updateMany_def DELETE_presented
        DELETE_absent split: option.splits)

theorem revoke_unconditional_witness:
  "refreshTokens (revokeRefreshToken 900 ''tok'' store_revoked) ''tok''
     = Some (tok_row\<lparr>rt_revokedAt := Some 900\<rparr>)
   \<and> refreshTokens (revokeRefreshToken 900 ''tok'' store_revoked) ''other'' = None
   \<and> DELETE 900 (Some ''refresh-token=tok'') store_revoked
       = (success_response, revokeRefreshToken 900 ''tok'' store_revoked)
   \<and> DELETE 900 None store_revoked = (success_response, store_revoked)"
proof -
  have n: "''other'' \<noteq> ''tok''" by simp
  from revoke_unconditional [of 900 "''tok''" store_revoked "Some ''refresh-token=tok''"]
    revoke_unconditional [of 900 "''tok''" store_revoked None]
  show ?thesis
    using n by (simp add: presented_tok presented_absent) (simp add: store_revoked_def)
qed

section \<open>Signing in with credentials\<close>

lemma allowed_company:
  "isEmailAllowed lower (ALLOWED_DOMAINS (Some ''company.com'')) ''alice@example.com'' = False"
  "isEmailAllowed lower (ALLOWED_DOMAINS (Some ''company.com'')) ''nobody@company.com'' = True"
  "isEmailAllowed lower (ALLOWED_DOMAINS (Some ''company.com'')) ''carol@company.com'' = True"
  "isEmailAllowed lower (ALLOWED_DOMAINS (Some ''company.com'')) ''dave@company.com'' = True"
  by code_simp+

lemma store_auth_find:
  "prisma_user_findUnique_email store_auth ''nobody@company.com'' = None"
  "prisma_user_findUnique_email store_auth ''carol@company.com'' = Some carol"
  "prisma_user_findUnique_email store_auth ''dave@company.com'' = Some dave"
  by (simp_all add: prisma_user_findUnique_email_def store_auth_def alice_def carol_def dave_def)

text \<open>
  As stated the claim fails: with the whitelist \<open>company.com\<close>, an address of another
  domain makes \<open>authorize\<close> throw, while an unknown address of the allowed domain makes
  it return \<open>null\<close>. The disallowed domain is a thrown fault, and the caller can tell it
  from invalid credentials.
\<close>

theorem authorize_counterexample:
  "authorize no_unicode_lower (ALLOWED_DOMAINS (Some ''company.com'')) toy_scrypt store_auth
     (login ''alice@example.com'' ''pw'') = Inl (Error ''Email domain not allowed'')
   \<and> authorize no_unicode_lower (ALLOWED_DOMAINS (Some ''company.com'')) toy_scrypt store_auth
     (login ''nobody@company.com'' ''pw'') = Inr None"
  by (simp add: authorize_def login_def allowed_company store_auth_find)

text \<open>
  C5, as the code has it. \<open>authorize\<close> returns \<open>null\<close>, one and the same outcome, for
  missing or empty credentials (whenever the email or the password is missing or empty,
  whatever the other is), for an unknown email, for a user without a password hash and
  for a wrong password. For an email whose domain is not allowed it does not return:
  it throws the error "Email domain not allowed".
\<close>

theorem authorize_failures:
  assumes "mail \<noteq> []" "password \<noteq> []"
  shows "(\<not> isEmailAllowed lower allowed mail \<longrightarrow>
            authorize lower allowed sc d (login mail password) = Inl (Error ''Email domain not allowed''))
       \<and> (isEmailAllowed lower allowed mail \<and> prisma_user_findUnique_email d mail = None \<longrightarrow>
            authorize lower allowed sc d (login mail password) = Inr None)
       \<and> (isEmailAllowed lower allowed mail \<and> prisma_user_findUnique_email d mail = Some u
            \<and> \<not> truthy (u_passwordHash u) \<longrightarrow>
            authorize lower allowed sc d (login mail password) = Inr None)
       \<and> (isEmailAllowed lower allowed mail \<and> prisma_user_findUnique_email d mail = Some u
            \<and> u_passwordHash u = Some hash \<and> verifyPassword sc password hash = Inr False \<longrightarrow>
            authorize lower allowed sc d (login mail password) = Inr None)
       \<and> authorize lower allowed sc d None = Inr None
       \<and> authorize lower allowed sc d (Some \<lparr>cr_email = None, cr_password = Some password\<rparr>) = Inr None
       \<and> authorize lower allowed sc d (Some \<lparr>cr_email = Some mail, cr_password = None\<rparr>) = Inr None
       \<and> authorize lower allowed sc d (login [] password) = Inr None
       \<and> authorize lower allowed sc d (login mail []) = Inr None
       \<and> (\<forall>c. \<not> truthy (cr_email c) \<or> \<not> truthy (cr_password c) \<longrightarrow>
                authorize lower allowed sc d (Some c) = Inr None)"
  using assms
  by (auto simp: authorize_def login_def truthy_def split: option.splits)

theorem authorize_failures_witness:
  "authorize no_unicode_lower (ALLOWED_DOMAINS (Some ''company.com'')) toy_scrypt store_auth
     (login ''alice@example.com'' ''pw'') = Inl (Error ''Email domain not allowed'')
   \<and> authorize no_unicode_lower (ALLOWED_DOMAINS (Some ''company.com'')) toy_scrypt store_auth
     (login ''nobody@company.com'' ''pw'') = Inr None
   \<and> authorize no_unicode_lower (ALLOWED_DOMAINS (Some ''company.com'')) toy_scrypt store_auth
     (login ''dave@company.com'' ''pw'') = Inr None
   \<and> authorize no_unicode_lower (ALLOWED_DOMAINS (Some ''company.com'')) toy_scrypt store_auth
     (login ''carol@company.com'' ''pW'') = Inr None
   \<and> authorize no_unicode_lower (ALLOWED_DOMAINS (Some ''company.com'')) toy_scrypt store_auth
     (Some \<lparr>cr_email = None, cr_password = None\<rparr>) = Inr None
   \<and> authorize no_unicode_lower (ALLOWED_DOMAINS (Some ''company.com'')) toy_scrypt store_auth
     (Some \<lparr>cr_email = Some [], cr_password = Some []\<rparr>) = Inr None"
proof -
  let ?al = "ALLOWED_DOMAINS (Some ''company.com'')"
  let ?hash = "toString_hex (randomBytes (\<lambda>i. 7) 16) @ '':'' @ toString_hex [0x70, 0x77]"
  have e: "''alice@example.com'' \<noteq> []" "''nobody@company.com'' \<noteq> []"
    "''dave@company.com'' \<noteq> []" "''carol@company.com'' \<noteq> []" "''pw'' \<noteq> []" "''pW'' \<noteq> []"
    by simp_all
  have d: "\<not> truthy (u_passwordHash dave)"
    by (simp add: dave_def truthy_def)
  have c: "u_passwordHash carol = Some ?hash"
    by (simp add: carol_def)
  have "toString_hex [0x70, 0x57] \<noteq> toString_hex [0x70, 0x77]"
    by (simp add: toString_hex_def hexByte_def hexDigit_def)
  then have v: "verifyPassword toy_scrypt ''pW'' ?hash = Inr False"
    by (simp add: verifyPassword_salted toy_scrypt_def)
  from authorize_failures [OF e(1) e(5), where lower = no_unicode_lower and allowed = ?al and sc = toy_scrypt and d = store_auth]
    authorize_failures [OF e(2) e(5), where lower = no_unicode_lower and allowed = ?al and sc = toy_scrypt and d = store_auth]
    authorize_failures [OF e(3) e(5), where lower = no_unicode_lower and allowed = ?al and sc = toy_scrypt and d = store_auth
      and u = dave]
    authorize_failures [OF e(4) e(6), where lower = no_unicode_lower and allowed = ?al and sc = toy_scrypt and d = store_auth
      and u = carol and hash = ?hash]
  show ?thesis
    using d c v by (simp add: allowed_company store_auth_find truthy_def)
qed

section \<open>The token a rotation creates\<close>

text \<open>
  On the POST path, a rotation that succeeds has revoked the presented token and created
  a token for its owner: 128 hex characters from 64 random bytes, expiring the refresh
  lifetime after the clock reading of the creation, not revoked.
\<close>

lemma POST_rotation_successor:
  assumes "status (fst (POST e h d)) = 200"
  shows "\<exists>t r. presented h = Some t \<and> refreshTokens d t = Some r
           \<and> refreshTokens (snd (POST e h d)) t = Some (r\<lparr>rt_revokedAt := Some (now_revoke e)\<rparr>)
           \<and> refreshTokens (snd (POST e h d)) (toString_hex (randomBytes (random e) 64))
                = Some \<lparr>rt_userId = rt_userId r,
                        rt_expiresAt = now_create e + REFRESH_TOKEN_TTL e * 1000,
                        rt_revokedAt = None\<rparr>
           \<and> length (toString_hex (randomBytes (random e) 64)) = 128
           \<and> set (toString_hex (randomBytes (random e) 64)) \<subseteq> set ''0123456789abcdef''"
  using assms
proof (elim POST_200D)
  fix t r u at
  assume a: "presented h = Some t" "refreshTokens d t = Some r"
    "refreshTokens d (new_token e) = None"
    "POST e h d = (token_response e at u (new_token e),
        d\<lparr>refreshTokens := (refreshTokens d)
                   (t \<mapsto> r\<lparr>rt_revokedAt := Some (now_revoke e)\<rparr>,
                    new_token e \<mapsto> successor e r)\<rparr>)"
  from a(2,3) have "new_token e \<noteq> t" by auto
  with a show ?thesis
    using set_toString_hex [of "randomBytes (random e) 64"]
    by (auto simp: new_token_def successor_def length_new_token)
qed

text \<open>
  C3. The new token of a rotation belongs to the user of the presented token: POST takes
  the user id from the row it found, but \<open>refreshAccessToken\<close> takes it from the
  \<open>userId\<close> of the JWT and never looks at the owner of the row. The token \<open>tok\<close>
  belongs to user \<open>u1\<close> and expires at time 1000. Presented in a JWT whose \<open>userId\<close> is
  \<open>u2\<close>, it is rotated into a token of \<open>u2\<close>. The \<open>jwt\<close> callback makes that call
  from the JWT of \<open>u1\<close>, at time 500 on every reading of the clock, when it is given a
  session update that sets \<open>userId\<close> to \<open>u2\<close> and \<open>refreshTokenExpires\<close> to 1 (which
  makes the refresh due while the row has not expired): the callback returns the JWT
  with the new token, and the row of that token belongs to \<open>u2\<close>. POST, given the same
  token and store, creates a token of \<open>u1\<close>.
\<close>

theorem refreshAccessToken_successor_owner:
  "map_option rt_userId (refreshTokens store0 ''tok'') = Some ''u1''
   \<and> map_option rt_userId
        (refreshTokens (snd (refreshAccessToken jenv0 (jwt0\<lparr>userId := Some ''u2''\<rparr>) store0))
           (toString_hex (randomBytes (random_rotate jenv0) 64))) = Some ''u2''
   \<and> fst (jwt (jenv_at 500) jwt0 None False (Some ''update'') (Some (claim_userId ''u2'' 1))
             store0)
       = Inr (jwt0\<lparr>userId := Some ''u2'', accessToken := Some ''signed'',
                   refreshToken := Some (toString_hex (randomBytes (random_rotate (jenv_at 500)) 64)),
                   refreshTokenExpires := Some 2592000500\<rparr>)
   \<and> map_option rt_userId
        (refreshTokens
           (snd (jwt (jenv_at 500) jwt0 None False (Some ''update'')
                   (Some (claim_userId ''u2'' 1)) store0))
           (toString_hex (randomBytes (random_rotate (jenv_at 500)) 64))) = Some ''u2''
   \<and> map_option rt_userId
        (refreshTokens (snd (POST env0 (Some ''refresh-token=tok'') store0))
           (toString_hex (randomBytes (random env0) 64))) = Some ''u1''"
proof -
  let ?h = "Some ''refresh-token=tok''"
  let ?t = "jwt0\<lparr>userId := Some ''u2''\<rparr>"
  let ?e = "jenv_at 500"
  have u: "usable (now_check env0) (Some tok_row)" "usable (now_rotate_check jenv0) (Some tok_row)"
    "usable (now_rotate_check ?e) (Some tok_row)"
    by (simp_all add: usable_def tok_row_def env0_def jenv0_def jenv_at_def)
  have q: "refreshToken ?t = Some ''tok''" "''tok'' \<noteq> []" "userId ?t = Some ''u2''"
    by (simp_all add: jwt0_def)
  have 1: "map_option rt_userId (refreshTokens store0 ''tok'') = Some ''u1''"
    by (simp add: store0_tok tok_row_def)
  have 2: "map_option rt_userId
        (refreshTokens (snd (refreshAccessToken jenv0 ?t store0))
           (toString_hex (randomBytes (random_rotate jenv0) 64))) = Some ''u2''"
    by (simp add: RAT_usable_outcome [OF q(1,2) store0_tok u(2)] q(3) j_new_token_def
          store0_fresh store0_mallory)
  let ?s = "jwt_sign ?e (jwt_update jwt0 (Some ''update'') (Some (claim_userId ''u2'' 1)))"
  have s: "?s = jwt0\<lparr>userId := Some ''u2'', accessToken := Some ''signed'',
                      refreshTokenExpires := Some 1\<rparr>"
    by (simp add: jwt_sign_def jwt_update_def Object_assign_def assign_def claim_userId_def
          jwt0_def jenv_at_def jenv0_def)
  have q': "refreshToken ?s = Some ''tok''" "userId ?s = Some ''u2''"
    unfolding s by (simp_all add: jwt0_def)
  have due: "refresh_due ?e ?s"
    unfolding s by (simp add: refresh_due_def truthy_def jwt0_def jenv_at_def)
  have J: "jwt ?e jwt0 None False (Some ''update'') (Some (claim_userId ''u2'' 1)) store0
        = (case refreshAccessToken ?e ?s store0 of
             (Inr newToken, d1) \<Rightarrow> (Inr newToken, d1)
           | (Inl f, d1) \<Rightarrow> (Inr (?s\<lparr>error := Some ''RefreshAccessTokenError''\<rparr>), d1))"
    by (simp add: jwt_def jwt_signin_def jwt_refresh_def due split: prod.splits sum.splits)
  have 3: "fst (jwt ?e jwt0 None False (Some ''update'') (Some (claim_userId ''u2'' 1)) store0)
       = Inr (jwt0\<lparr>userId := Some ''u2'', accessToken := Some ''signed'',
                   refreshToken := Some (toString_hex (randomBytes (random_rotate ?e) 64)),
                   refreshTokenExpires := Some 2592000500\<rparr>)"
    unfolding J
    apply (simp add: RAT_usable_outcome [OF q'(1) q(2) store0_tok u(3)] q'(2) j_new_token_def
          store0_fresh store0_mallory)
    apply (simp only: s)
    apply (simp add: jenv_at_def jenv0_def)
    done
  have 5: "map_option rt_userId
        (refreshTokens
           (snd (jwt ?e jwt0 None False (Some ''update'') (Some (claim_userId ''u2'' 1)) store0))
           (toString_hex (randomBytes (random_rotate ?e) 64))) = Some ''u2''"
    unfolding J
    by (simp add: RAT_usable_outcome [OF q'(1) q(2) store0_tok u(3)] q'(2) j_new_token_def
          store0_fresh store0_mallory)
  have a: "prisma_user_findUnique_id store0 (rt_userId tok_row) = Some alice"
    by (simp add: tok_row_def store0_alice)
  have sg: "sign env0 c ttl = Some ''signed''" for c ttl
    by (simp add: env0_def)
  have f: "refreshTokens store0 (new_token env0) = None"
    by (simp add: new_token_def store0_fresh)
  have P: "POST env0 ?h store0 =
      (token_response env0 ''signed'' alice (new_token env0),
       store0\<lparr>refreshTokens := (refreshTokens store0)
          (''tok'' \<mapsto> tok_row\<lparr>rt_revokedAt := Some (now_revoke env0)\<rparr>,
           new_token env0 \<mapsto> successor env0 tok_row)\<rparr>)"
    by (simp add: POST_usable_outcome [OF presented_tok store0_tok u(1)] f a sg)
  have 4: "map_option rt_userId
        (refreshTokens (snd (POST env0 ?h store0))
           (toString_hex (randomBytes (random env0) 64))) = Some ''u1''"
    unfolding P by (simp add: new_token_def successor_def tok_row_def)
  from 1 2 3 5 4 show ?thesis by blast
qed

section \<open>A signing failure in the jwt callback\<close>

lemma jwt_sign_failure:
  assumes "\<And>c ttl. j_sign e c ttl = None"
  shows "jwt_sign e token = token"
  using assms by (simp add: jwt_sign_def split: option.splits)

text \<open>
  C8. A signing failure in the \<open>jwt\<close> callback is caught and does not leave the
  callback as an exception, but it is not surfaced either: the catch only logs. With a
  signer that throws, the callback returns the token it was given, with no access token
  and no \<open>error\<close>, and the session built from it has no \<open>error\<close>. The catch next to
  it, around the refresh, does set \<open>error\<close>: a rotation that fails (here on a revoked
  token, at time 2000) returns the token with \<open>error\<close> "RefreshAccessTokenError".
\<close>

theorem jwt_signing_failure_silent:
  "jwt jenv_unsigned jwt_fresh None False None None store0 = (Inr jwt_fresh, store0)
   \<and> accessToken jwt_fresh = None
   \<and> error jwt_fresh = None
   \<and> se_accessToken (session_callback jwt_fresh) = None
   \<and> se_error (session_callback jwt_fresh) = None
   \<and> fst (jwt (jenv_at 2000) jwt0 None False None None store_revoked)
       = Inr (jwt0\<lparr>accessToken := Some ''signed'', error := Some ''RefreshAccessTokenError''\<rparr>)"
proof -
  have n: "j_sign jenv_unsigned c ttl = None" for c ttl
    by (simp add: jenv_unsigned_def)
  have nd: "\<not> refresh_due jenv_unsigned jwt_fresh"
    by (simp add: refresh_due_def jwt_fresh_def jenv_unsigned_def jenv0_def)
  have 1: "jwt jenv_unsigned jwt_fresh None False None None store0 = (Inr jwt_fresh, store0)"
    by (simp add: jwt_def jwt_signin_def jwt_update_def jwt_sign_failure [OF n] jwt_refresh_def nd)
  have 2: "accessToken jwt_fresh = None" "error jwt_fresh = None"
    "se_accessToken (session_callback jwt_fresh) = None"
    "se_error (session_callback jwt_fresh) = None"
    by (simp_all add: jwt_fresh_def jwt0_def session_callback_def)
  let ?s = "jwt_sign (jenv_at 2000) jwt0"
  have s: "?s = jwt0\<lparr>accessToken := Some ''signed''\<rparr>"
    by (simp add: jwt_sign_def jwt0_def jenv_at_def jenv0_def)
  have due: "refresh_due (jenv_at 2000) ?s"
    unfolding s by (simp add: refresh_due_def truthy_def jwt0_def jenv_at_def)
  have q: "refreshToken ?s = Some ''tok''" "''tok'' \<noteq> []"
    unfolding s by (simp_all add: jwt0_def)
  have r: "\<not> usable (now_rotate_check (jenv_at 2000)) (refreshTokens store_revoked ''tok'')"
    by (simp add: usable_def store_revoked_def)
  have 3: "fst (jwt (jenv_at 2000) jwt0 None False None None store_revoked)
       = Inr (jwt0\<lparr>accessToken := Some ''signed'', error := Some ''RefreshAccessTokenError''\<rparr>)"
    by (simp add: jwt_def jwt_signin_def jwt_update_def jwt_refresh_def due RAT_invalid [OF q r])
       (simp add: s)
  from 1 2 3 show ?thesis by blast
qed

section \<open>Rotations in flight at the same time\<close>




lemma post_steps_POST:
  "(case post_step e (Start h) d of (pc1, d1) \<Rightarrow>
      case post_step e pc1 d1 of (pc2, d2) \<Rightarrow> post_step e pc2 d2)
   = (Done (fst (POST e h d)), snd (POST e h d))"
  by (simp add: POST_def Let_def split: option.splits sum.splits prod.splits)

lemma run_alone:
  "run [0, 0, 0] [(e, Start h)] d = ([(e, Done (fst (POST e h d)))], snd (POST e h d))"
  using post_steps_POST [of e h d]
  by (simp split: prod.splits)












end
